theory Spec2Isabelle
  imports Complex_Main "HOL-Library.Word" "HOL-Library.AList" "HOL-Library.Multiset"
begin

section \<open>Data model\<close>

text \<open>
  The service is a Go package. Its \<^verbatim>\<open>float32\<close> values are only carried from the
  provider's replies into rows and message bodies; the one arithmetic step on them,
  \<^verbatim>\<open>float32(pressure) * 0.75\<close> on a 16-bit integer, is exact in \<^verbatim>\<open>float32\<close>, so the
  embedding writes them as reals.
\<close>

type_synonym float32 = real

text \<open>\<^verbatim>\<open>CityType\<close> (ClickHouseFuncs.go) and its zero value \<^verbatim>\<open>CityType{}\<close>.\<close>

record CityType =
  Name :: string
  Lat :: float32
  Lon :: float32

definition zeroCity :: CityType where
  "zeroCity = \<lparr>Name = [], Lat = 0, Lon = 0\<rparr>"

text \<open>
  \<^verbatim>\<open>weatherAPIResp\<close>, \<^verbatim>\<open>forecastAPIResp\<close> and \<^verbatim>\<open>listForecastAPIResp\<close>: the nested
  \<^verbatim>\<open>Main\<close>, \<^verbatim>\<open>Wind\<close> and \<^verbatim>\<open>City\<close> structs are flattened; the fields of the current-weather
  reply carry the prefix \<open>w\<close>.
\<close>

record weatherAPIResp =
  wDt :: "64 word"
  wTemp :: float32
  wFeelsLike :: float32
  wPressure :: "16 word"
  wSpeed :: float32
  wDeg :: "16 word"
  wCityName :: string

definition zeroWeather :: weatherAPIResp where
  "zeroWeather = \<lparr>wDt = 0, wTemp = 0, wFeelsLike = 0, wPressure = 0, wSpeed = 0, wDeg = 0,
     wCityName = []\<rparr>"

record forecastAPIResp =
  Dt :: "64 word"
  Temp :: float32
  FeelsLike :: float32
  Pressure :: "16 word"
  Speed :: float32
  Weather :: "string list"  \<comment> \<open>the \<^verbatim>\<open>Description\<close> of each element of \<^verbatim>\<open>Weather\<close>\<close>

definition zeroForecast :: forecastAPIResp where
  "zeroForecast = \<lparr>Dt = 0, Temp = 0, FeelsLike = 0, Pressure = 0, Speed = 0, Weather = []\<rparr>"

text \<open>
  A Go slice is a window on a backing array: \<open>items\<close> are its elements (\<^verbatim>\<open>len\<close> of them),
  \<open>spare\<close> is what the backing array holds between \<^verbatim>\<open>len\<close> and \<^verbatim>\<open>cap\<close>. The capacity is
  chosen by whoever allocated the slice (here the JSON decoder).
\<close>

record 'a slice =
  items :: "'a list"
  spare :: "'a list"

record listForecastAPIResp =
  Cnt :: "64 word"
  List :: "forecastAPIResp slice"
  fCityName :: string

text \<open>A call either returns or panics (a Go run-time panic ends the goroutine).\<close>

datatype 'a outcome = Panic | Done 'a

text \<open>
  \<^verbatim>\<open>s[0:n]\<close> on a slice: legal up to the capacity, a run-time panic beyond it. The result
  is read here only through \<^verbatim>\<open>len\<close> and \<^verbatim>\<open>range\<close>, so it is returned as the list of
  its elements.
\<close>

definition sliceTo :: "'a slice \<Rightarrow> nat \<Rightarrow> 'a list outcome" where
  "sliceTo s n =
     (if n \<le> length (items s) + length (spare s) then Done (take n (items s @ spare s))
      else Panic)"

text \<open>\<^verbatim>\<open>EmailTask\<close> (the notification task); every \<^verbatim>\<open>Meta\<close> value the package stores is a string.\<close>

record EmailTask =
  To :: string
  Subject :: string
  Body :: string
  Type :: string
  Meta :: "(string \<times> string) list"

record UserData =
  Email :: string
  Password :: string
  Cities :: "string list"

text \<open>The error values the functions return, one constructor per \<^verbatim>\<open>return ... err\<close>.\<close>

datatype error =
    RequestError
  | Non200
  | ReadBodyError
  | DecodeError
  | NoResults string
  | EmptyForecast
  | PrepareBatchError
  | GetCoordinatesError string error
  | AppendError
  | SendBatchError
  | GetWeatherError string error
  | ChannelNotInitialized
  | MarshalError
  | PublishError
  | WelcomePublishError error
  | RequestDecodeError
  | errUserExist
  | SelectError
  | MissingFields
  | HashError
  | AddCitiesError error
  | InsertError

section \<open>The collaborators\<close>

text \<open>
  What an HTTP call to the provider gives back, in the order the client inspects it:
  no reply at all (\<^verbatim>\<open>http.Get\<close> fails), or a status code with a body that cannot be read,
  cannot be decoded, or decodes to a value.
\<close>

datatype 'a body = Unreadable | Undecodable | Decoded 'a

datatype 'a reply = NoReply | Reply nat "'a body"

datatype selected = RowFound | NoRows | SelectFailed

datatype userRow = ScanError | UserRow string "string list"

type_synonym cityRow = "string \<times> float32 \<times> float32"

record metricRow =
  mTimestamp :: "64 word"
  mCity :: string
  mTemp :: float32
  mAppTemp :: float32
  mPressure :: "16 word"
  mWindSpeed :: float32
  mWindDeg :: "16 word"

text \<open>
  The behaviour of everything outside the package. A provider operation takes the number
  of requests of its kind made before, so two requests for the same city may be answered
  differently. The stores and the broker say whether they accept an operation; the
  library functions (\<^verbatim>\<open>json.Marshal\<close>, \<^verbatim>\<open>bcrypt\<close>, \<^verbatim>\<open>time.Format\<close>, \<^verbatim>\<open>%.1f\<close>) are taken
  as they are.
\<close>

record env =
  geocode :: "nat \<Rightarrow> string \<Rightarrow> CityType list reply"
  currentWeather :: "nat \<Rightarrow> CityType \<Rightarrow> weatherAPIResp reply"
  hourlyForecast :: "nat \<Rightarrow> CityType \<Rightarrow> listForecastAPIResp reply"
  prepareBatch :: "string \<Rightarrow> bool"
  appendCity :: "cityRow list \<Rightarrow> cityRow \<Rightarrow> bool"
  sendCities :: "cityRow list \<Rightarrow> bool"
  appendMetric :: "metricRow list \<Rightarrow> metricRow \<Rightarrow> bool"
  sendMetrics :: "metricRow list \<Rightarrow> bool"
  selectEmail :: "string \<Rightarrow> selected"
  insertUser :: "string \<times> string \<times> string list \<Rightarrow> bool"
  selectUsers :: "userRow list option"
  hashPassword :: "string \<Rightarrow> string option"
  marshal :: "EmailTask \<Rightarrow> string option"
  publish :: "nat \<Rightarrow> string \<Rightarrow> bool"
  formatTime :: "64 word \<Rightarrow> string"
  formatFloat1 :: "float32 \<Rightarrow> string"

text \<open>
  The state of the process and of its stores: the global \<^verbatim>\<open>mapOfCities\<close> (an association
  list, since the collector ranges over it), the two ClickHouse tables, the user rows
  inserted, whether \<^verbatim>\<open>rabbitChannel\<close> is set, the messages the broker accepted, and the
  requests made so far to each provider operation and to the broker.
\<close>

type_synonym registry = "(string \<times> CityType) list"

record world =
  mapOfCities :: registry
  citiesTable :: "cityRow list"
  weatherMetrics :: "metricRow list"
  usersTable :: "(string \<times> string \<times> string list) list"
  rabbitChannel :: bool
  queue :: "string list"
  geoCalls :: "string list"
  weatherCalls :: "CityType list"
  forecastCalls :: "(string \<times> bool) list"
  publishCalls :: nat

text \<open>
  Go leaves the order of \<^verbatim>\<open>range\<close> over a map unspecified. \<open>rangeOrder seed xs\<close> is the
  order one execution visits the entries \<open>xs\<close> in: every \<open>seed\<close> gives a permutation and
  every permutation comes from some \<open>seed\<close>.
\<close>

definition place :: "nat \<Rightarrow> 'a \<Rightarrow> 'a list \<Rightarrow> 'a list" where
  "place i x xs = take (i mod (length xs + 1)) xs @ x # drop (i mod (length xs + 1)) xs"

fun rangeOrder :: "nat list \<Rightarrow> 'a list \<Rightarrow> 'a list" where
  "rangeOrder seed [] = []"
| "rangeOrder [] (x # xs) = x # rangeOrder [] xs"
| "rangeOrder (i # seed) (x # xs) = place i x (rangeOrder seed xs)"

section \<open>The provider client\<close>

text \<open>\<^verbatim>\<open>getCoordinates\<close>: rank 0 of the geocoder's candidates, or the zero city and an error.\<close>

definition getCoordinates :: "env \<Rightarrow> nat \<Rightarrow> string \<Rightarrow> CityType \<times> error option" where
  "getCoordinates env n cityName =
     (case geocode env n cityName of
        NoReply \<Rightarrow> (zeroCity, Some RequestError)
      | Reply status b \<Rightarrow>
          if status \<noteq> 200 then (zeroCity, Some Non200)
          else (case b of
                  Unreadable \<Rightarrow> (zeroCity, Some ReadBodyError)
                | Undecodable \<Rightarrow> (zeroCity, Some DecodeError)
                | Decoded cities \<Rightarrow>
                    (case cities of
                       [] \<Rightarrow> (zeroCity, Some (NoResults cityName))
                     | c # _ \<Rightarrow> (c, None))))"

definition getWeather :: "env \<Rightarrow> nat \<Rightarrow> CityType \<Rightarrow> weatherAPIResp \<times> error option" where
  "getWeather env n city =
     (case currentWeather env n city of
        NoReply \<Rightarrow> (zeroWeather, Some RequestError)
      | Reply status b \<Rightarrow>
          if status \<noteq> 200 then (zeroWeather, Some Non200)
          else (case b of
                  Unreadable \<Rightarrow> (zeroWeather, Some ReadBodyError)
                | Undecodable \<Rightarrow> (zeroWeather, Some DecodeError)
                | Decoded weatherResp \<Rightarrow> (weatherResp, None)))"

text \<open>\<^verbatim>\<open>getWeatherForecast\<close>: the last statement is \<^verbatim>\<open>return forecastResp.List[0:24], nil\<close>.\<close>

definition getWeatherForecast ::
  "env \<Rightarrow> nat \<Rightarrow> CityType \<Rightarrow> (forecastAPIResp list \<times> error option) outcome" where
  "getWeatherForecast env n city =
     (case hourlyForecast env n city of
        NoReply \<Rightarrow> Done ([], Some RequestError)
      | Reply status b \<Rightarrow>
          if status \<noteq> 200 then Done ([], Some Non200)
          else (case b of
                  Unreadable \<Rightarrow> Done ([], Some ReadBodyError)
                | Undecodable \<Rightarrow> Done ([], Some DecodeError)
                | Decoded forecastResp \<Rightarrow>
                    if Cnt forecastResp = 0 \<or> length (items (List forecastResp)) = 0
                    then Done ([], Some EmptyForecast)
                    else (case sliceTo (List forecastResp) 24 of
                            Panic \<Rightarrow> Panic
                          | Done series \<Rightarrow> Done (series, None))))"

section \<open>Registration: \<^verbatim>\<open>addCitiesToDB\<close>\<close>

text \<open>
  The loop over the input names. \<open>reg\<close> is \<^verbatim>\<open>mapOfCities\<close>, which the loop only reads;
  \<open>tmp\<close> is \<^verbatim>\<open>tmpMapOfCities\<close>, \<open>batch\<close> the rows appended so far, \<open>added\<close> is
  \<^verbatim>\<open>addedCities\<close>, \<open>calls\<close> the geocoding requests made so far. The registry is looked up
  under the name the geocoder returned, before the geocoder's error is inspected.
\<close>

fun resolveCities ::
  "env \<Rightarrow> registry \<Rightarrow> string list \<Rightarrow> registry \<Rightarrow> cityRow list \<Rightarrow> string list \<Rightarrow> string list
     \<Rightarrow> (error + registry \<times> cityRow list \<times> string list) \<times> string list" where
  "resolveCities env reg [] tmp batch added calls = (Inr (tmp, batch, added), calls)"
| "resolveCities env reg (cityName # rest) tmp batch added calls =
     (case getCoordinates env (length calls) cityName of
        (city, err) \<Rightarrow>
          if map_of reg (Name city) \<noteq> None
          then resolveCities env reg rest tmp batch (added @ [Name city]) (calls @ [cityName])
          else (case err of
                  Some e \<Rightarrow> (Inl (GetCoordinatesError cityName e), calls @ [cityName])
                | None \<Rightarrow>
                    if \<not> appendCity env batch (Name city, Lat city, Lon city)
                    then (Inl AppendError, calls @ [cityName])
                    else resolveCities env reg rest (AList.update (Name city) city tmp)
                           (batch @ [(Name city, Lat city, Lon city)]) added
                           (calls @ [cityName])))"

text \<open>
  \<^verbatim>\<open>addCitiesToDB\<close>: prepare the batch, run the loop, send the batch, and only then copy
  \<^verbatim>\<open>tmpMapOfCities\<close> into \<^verbatim>\<open>mapOfCities\<close>, in the order \<open>seed\<close> of the \<^verbatim>\<open>range\<close>.
\<close>

definition addCitiesToDB ::
  "env \<Rightarrow> nat list \<Rightarrow> string list \<Rightarrow> world \<Rightarrow> (error + string list) \<times> world" where
  "addCitiesToDB env seed cities w =
     (if \<not> prepareBatch env ''cities'' then (Inl PrepareBatchError, w)
      else (case resolveCities env (mapOfCities w) cities [] [] [] (geoCalls w) of
              (Inl e, calls) \<Rightarrow> (Inl e, w\<lparr>geoCalls := calls\<rparr>)
            | (Inr (tmp, batch, added), calls) \<Rightarrow>
                if \<not> sendCities env batch then (Inl SendBatchError, w\<lparr>geoCalls := calls\<rparr>)
                else (Inr (added @ map fst (rangeOrder seed tmp)),
                      w\<lparr>geoCalls := calls,
                        citiesTable := citiesTable w @ batch,
                        mapOfCities :=
                          fold (\<lambda>(k, v). AList.update k v) (rangeOrder seed tmp)
                            (mapOfCities w)\<rparr>)))"

section \<open>Collection: \<^verbatim>\<open>insertWeatherData\<close>\<close>

text \<open>The row \<^verbatim>\<open>batch.Append\<close> receives for one city; \<^verbatim>\<open>time.Unix(dt, 0)\<close> keeps the seconds.\<close>

definition metricOf :: "string \<Rightarrow> weatherAPIResp \<Rightarrow> metricRow" where
  "metricOf cityName weatherResp =
     \<lparr>mTimestamp = wDt weatherResp, mCity = cityName, mTemp = wTemp weatherResp,
      mAppTemp = wFeelsLike weatherResp, mPressure = wPressure weatherResp,
      mWindSpeed = wSpeed weatherResp, mWindDeg = wDeg weatherResp\<rparr>"

text \<open>
  The loop over the cities, in the order the \<^verbatim>\<open>range\<close> visits them: \<open>batch\<close> holds the
  rows appended so far, \<open>calls\<close> the current-weather requests made so far.
\<close>

fun collectWeather ::
  "env \<Rightarrow> registry \<Rightarrow> metricRow list \<Rightarrow> CityType list
     \<Rightarrow> (error + metricRow list) \<times> CityType list" where
  "collectWeather env [] batch calls = (Inr batch, calls)"
| "collectWeather env ((cityName, city) # rest) batch calls =
     (case getWeather env (length calls) city of
        (weatherResp, err) \<Rightarrow>
          (case err of
             Some e \<Rightarrow> (Inl (GetWeatherError cityName e), calls @ [city])
           | None \<Rightarrow>
               if \<not> appendMetric env batch (metricOf cityName weatherResp)
               then (Inl AppendError, calls @ [city])
               else collectWeather env rest (batch @ [metricOf cityName weatherResp])
                      (calls @ [city])))"

definition insertWeatherData ::
  "env \<Rightarrow> nat list \<Rightarrow> registry \<Rightarrow> world \<Rightarrow> error option \<times> world" where
  "insertWeatherData env seed cities w =
     (if \<not> prepareBatch env ''weather_metrics'' then (Some PrepareBatchError, w)
      else (case collectWeather env (rangeOrder seed cities) [] (weatherCalls w) of
              (Inl e, calls) \<Rightarrow> (Some e, w\<lparr>weatherCalls := calls\<rparr>)
            | (Inr batch, calls) \<Rightarrow>
                if \<not> sendMetrics env batch
                then (Some SendBatchError, w\<lparr>weatherCalls := calls\<rparr>)
                else (None, w\<lparr>weatherCalls := calls,
                               weatherMetrics := weatherMetrics w @ batch\<rparr>)))"

text \<open>
  One tick of \<^verbatim>\<open>startPeriodicDataCollection\<close>: the collector is handed \<^verbatim>\<open>mapOfCities\<close>
  and its error, if any, goes to the log.
\<close>

definition collectionTick :: "env \<Rightarrow> nat list \<Rightarrow> world \<Rightarrow> error option \<times> world" where
  "collectionTick env seed w = insertWeatherData env seed (mapOfCities w) w"

section \<open>The message queue: \<^verbatim>\<open>publishEmailTask\<close>\<close>

text \<open>
  The task is marshalled and handed to the broker; \<open>queue\<close> grows only when the broker
  accepts the message. A channel that was never initialised and a marshalling failure
  return before the broker is contacted.
\<close>

definition publishEmailTask :: "env \<Rightarrow> EmailTask \<Rightarrow> world \<Rightarrow> error option \<times> world" where
  "publishEmailTask env task w =
     (if \<not> rabbitChannel w then (Some ChannelNotInitialized, w)
      else (case marshal env task of
              None \<Rightarrow> (Some MarshalError, w)
            | Some body \<Rightarrow>
                if \<not> publish env (publishCalls w) body
                then (Some PublishError, w\<lparr>publishCalls := Suc (publishCalls w)\<rparr>)
                else (None, w\<lparr>publishCalls := Suc (publishCalls w),
                               queue := queue w @ [body]\<rparr>)))"

section \<open>Dispatch: \<^verbatim>\<open>createEmailBody\<close> and \<^verbatim>\<open>sendWeatherEmails\<close>\<close>

text \<open>The string constants of the digest, as the UTF-8 bytes of the source text.\<close>

definition dailySubject :: string where
  "dailySubject =
     [CHR 0xD0, CHR 0x95, CHR 0xD0, CHR 0xB6, CHR 0xD0, CHR 0xB5, CHR 0xD0, CHR 0xB4, CHR 0xD0, CHR 0xBD, CHR 0xD0, CHR 0xB5] @
     [CHR 0xD0, CHR 0xB2, CHR 0xD0, CHR 0xBD, CHR 0xD1, CHR 0x8B, CHR 0xD0, CHR 0xB9] @ '' '' @
     [CHR 0xD0, CHR 0xBF, CHR 0xD1, CHR 0x80, CHR 0xD0, CHR 0xBE, CHR 0xD0, CHR 0xB3, CHR 0xD0, CHR 0xBD, CHR 0xD0, CHR 0xBE] @
     [CHR 0xD0, CHR 0xB7] @ '' '' @
     [CHR 0xD0, CHR 0xBF, CHR 0xD0, CHR 0xBE, CHR 0xD0, CHR 0xB3, CHR 0xD0, CHR 0xBE, CHR 0xD0, CHR 0xB4, CHR 0xD1, CHR 0x8B]"

definition welcomeSubject :: string where
  "welcomeSubject =
     [CHR 0xD0, CHR 0x94, CHR 0xD0, CHR 0xBE, CHR 0xD0, CHR 0xB1, CHR 0xD1, CHR 0x80, CHR 0xD0, CHR 0xBE] @
     '' '' @
     [CHR 0xD0, CHR 0xBF, CHR 0xD0, CHR 0xBE, CHR 0xD0, CHR 0xB6, CHR 0xD0, CHR 0xB0, CHR 0xD0, CHR 0xBB, CHR 0xD0, CHR 0xBE] @
     [CHR 0xD0, CHR 0xB2, CHR 0xD0, CHR 0xB0, CHR 0xD1, CHR 0x82, CHR 0xD1, CHR 0x8C] @ '' '' @
     [CHR 0xD0, CHR 0xB2] @ '' WeatherService!''"

definition welcomeBody :: string where
  "welcomeBody =
     ''<html>'' @ [CHR 0x0A, CHR 0x09, CHR 0x09] @ ''<body>'' @
     [CHR 0x0A, CHR 0x09, CHR 0x09, CHR 0x09] @ ''<h1>'' @
     [CHR 0xD0, CHR 0x94, CHR 0xD0, CHR 0xBE, CHR 0xD0, CHR 0xB1, CHR 0xD1, CHR 0x80, CHR 0xD0, CHR 0xBE] @
     '' '' @
     [CHR 0xD0, CHR 0xBF, CHR 0xD0, CHR 0xBE, CHR 0xD0, CHR 0xB6, CHR 0xD0, CHR 0xB0, CHR 0xD0, CHR 0xBB, CHR 0xD0, CHR 0xBE] @
     [CHR 0xD0, CHR 0xB2, CHR 0xD0, CHR 0xB0, CHR 0xD1, CHR 0x82, CHR 0xD1, CHR 0x8C] @ '' '' @
     [CHR 0xD0, CHR 0xB2] @ '' WeatherService!</h1>'' @
     [CHR 0x0A, CHR 0x09, CHR 0x09, CHR 0x09] @ ''<p>'' @
     [CHR 0xD0, CHR 0xA1, CHR 0xD0, CHR 0xBF, CHR 0xD0, CHR 0xB0, CHR 0xD1, CHR 0x81, CHR 0xD0, CHR 0xB8, CHR 0xD0, CHR 0xB1] @
     [CHR 0xD0, CHR 0xBE] @ '' '' @ [CHR 0xD0, CHR 0xB7, CHR 0xD0, CHR 0xB0] @ '' '' @
     [CHR 0xD1, CHR 0x80, CHR 0xD0, CHR 0xB5, CHR 0xD0, CHR 0xB3, CHR 0xD0, CHR 0xB8, CHR 0xD1, CHR 0x81, CHR 0xD1, CHR 0x82] @
     [CHR 0xD1, CHR 0x80, CHR 0xD0, CHR 0xB0, CHR 0xD1, CHR 0x86, CHR 0xD0, CHR 0xB8, CHR 0xD1, CHR 0x8E] @
     '' '' @ [CHR 0xE2, CHR 0x80, CHR 0x94] @ '' '' @
     [CHR 0xD0, CHR 0xBC, CHR 0xD1, CHR 0x8B] @ '' '' @
     [CHR 0xD0, CHR 0xB1, CHR 0xD1, CHR 0x83, CHR 0xD0, CHR 0xB4, CHR 0xD0, CHR 0xB5, CHR 0xD0, CHR 0xBC] @
     '' '' @
     [CHR 0xD0, CHR 0xBF, CHR 0xD1, CHR 0x80, CHR 0xD0, CHR 0xB8, CHR 0xD1, CHR 0x81, CHR 0xD1, CHR 0x8B, CHR 0xD0, CHR 0xBB] @
     [CHR 0xD0, CHR 0xB0, CHR 0xD1, CHR 0x82, CHR 0xD1, CHR 0x8C] @ '' '' @
     [CHR 0xD0, CHR 0xBE, CHR 0xD0, CHR 0xB1, CHR 0xD0, CHR 0xBD, CHR 0xD0, CHR 0xBE, CHR 0xD0, CHR 0xB2, CHR 0xD0, CHR 0xBB] @
     [CHR 0xD0, CHR 0xB5, CHR 0xD0, CHR 0xBD, CHR 0xD0, CHR 0xB8, CHR 0xD1, CHR 0x8F] @ '' '' @
     [CHR 0xD0, CHR 0xBF, CHR 0xD0, CHR 0xBE] @ '' '' @
     [CHR 0xD0, CHR 0xBF, CHR 0xD0, CHR 0xBE, CHR 0xD0, CHR 0xB3, CHR 0xD0, CHR 0xBE, CHR 0xD0, CHR 0xB4, CHR 0xD0, CHR 0xB5] @
     '' '' @ [CHR 0xD0, CHR 0xB2] @ '' '' @
     [CHR 0xD0, CHR 0xB2, CHR 0xD1, CHR 0x8B, CHR 0xD0, CHR 0xB1, CHR 0xD1, CHR 0x80, CHR 0xD0, CHR 0xB0, CHR 0xD0, CHR 0xBD] @
     [CHR 0xD0, CHR 0xBD, CHR 0xD1, CHR 0x8B, CHR 0xD1, CHR 0x85] @ '' '' @
     [CHR 0xD1, CHR 0x82, CHR 0xD0, CHR 0xBE, CHR 0xD0, CHR 0xB1, CHR 0xD0, CHR 0xBE, CHR 0xD0, CHR 0xB9] @
     '' '' @
     [CHR 0xD0, CHR 0xB3, CHR 0xD0, CHR 0xBE, CHR 0xD1, CHR 0x80, CHR 0xD0, CHR 0xBE, CHR 0xD0, CHR 0xB4, CHR 0xD0, CHR 0xB0] @
     [CHR 0xD1, CHR 0x85] @ ''.</p>'' @ [CHR 0x0A, CHR 0x09, CHR 0x09] @ ''</body>'' @
     [CHR 0x0A, CHR 0x09] @ ''</html>''"

definition bodyHead :: string where
  "bodyHead =
     ''<html>'' @ [CHR 0x0A] @ ''        <body>'' @ [CHR 0x0A] @ ''            <h1>'' @
     [CHR 0xD0, CHR 0x9F, CHR 0xD1, CHR 0x80, CHR 0xD0, CHR 0xB8, CHR 0xD0, CHR 0xB2, CHR 0xD0, CHR 0xB5, CHR 0xD1, CHR 0x82] @
     ''!</h1>'' @ [CHR 0x0A] @ ''            <p>'' @
     [CHR 0xD0, CHR 0x92, CHR 0xD0, CHR 0xBE, CHR 0xD1, CHR 0x82] @ '' '' @
     [CHR 0xD1, CHR 0x82, CHR 0xD0, CHR 0xB2, CHR 0xD0, CHR 0xBE, CHR 0xD0, CHR 0xB9] @ '' '' @
     [CHR 0xD0, CHR 0xB5, CHR 0xD0, CHR 0xB6, CHR 0xD0, CHR 0xB5, CHR 0xD0, CHR 0xB4, CHR 0xD0, CHR 0xBD, CHR 0xD0, CHR 0xB5] @
     [CHR 0xD0, CHR 0xB2, CHR 0xD0, CHR 0xBD, CHR 0xD1, CHR 0x8B, CHR 0xD0, CHR 0xB9] @ '' '' @
     [CHR 0xD0, CHR 0xBF, CHR 0xD1, CHR 0x80, CHR 0xD0, CHR 0xBE, CHR 0xD0, CHR 0xB3, CHR 0xD0, CHR 0xBD, CHR 0xD0, CHR 0xBE] @
     [CHR 0xD0, CHR 0xB7] @ '' '' @
     [CHR 0xD0, CHR 0xBF, CHR 0xD0, CHR 0xBE, CHR 0xD0, CHR 0xB3, CHR 0xD0, CHR 0xBE, CHR 0xD0, CHR 0xB4, CHR 0xD1, CHR 0x8B] @
     '':</p>''"

definition bodyTail :: string where
  "bodyTail =
     [CHR 0x0A] @ ''            <p>'' @
     [CHR 0xD0, CHR 0xA1, CHR 0xD0, CHR 0xBF, CHR 0xD0, CHR 0xB0, CHR 0xD1, CHR 0x81, CHR 0xD0, CHR 0xB8, CHR 0xD0, CHR 0xB1] @
     [CHR 0xD0, CHR 0xBE] @ '', '' @
     [CHR 0xD1, CHR 0x87, CHR 0xD1, CHR 0x82, CHR 0xD0, CHR 0xBE] @ '' '' @
     [CHR 0xD0, CHR 0xB8, CHR 0xD1, CHR 0x81, CHR 0xD0, CHR 0xBF, CHR 0xD0, CHR 0xBE, CHR 0xD0, CHR 0xBB, CHR 0xD1, CHR 0x8C] @
     [CHR 0xD0, CHR 0xB7, CHR 0xD1, CHR 0x83, CHR 0xD0, CHR 0xB5, CHR 0xD1, CHR 0x88, CHR 0xD1, CHR 0x8C] @
     '' '' @ [CHR 0xD0, CHR 0xBD, CHR 0xD0, CHR 0xB0, CHR 0xD1, CHR 0x88] @ '' '' @
     [CHR 0xD1, CHR 0x81, CHR 0xD0, CHR 0xB5, CHR 0xD1, CHR 0x80, CHR 0xD0, CHR 0xB2, CHR 0xD0, CHR 0xB8, CHR 0xD1, CHR 0x81] @
     ''!</p>'' @ [CHR 0x0A] @ ''        </body>'' @ [CHR 0x0A] @ ''    </html>''"

definition liOpen :: string where
  "liOpen = ''<li>''"

definition liAfterTime :: string where
  "liAfterTime = '': ''"

definition liAfterTemp :: string where
  "liAfterTemp =
     [CHR 0xC2, CHR 0xB0] @ ''C ('' @
     [CHR 0xD0, CHR 0xBE, CHR 0xD1, CHR 0x89, CHR 0xD1, CHR 0x83, CHR 0xD1, CHR 0x89, CHR 0xD0, CHR 0xB0, CHR 0xD0, CHR 0xB5] @
     [CHR 0xD1, CHR 0x82, CHR 0xD1, CHR 0x81, CHR 0xD1, CHR 0x8F] @ '' '' @
     [CHR 0xD0, CHR 0xBA, CHR 0xD0, CHR 0xB0, CHR 0xD0, CHR 0xBA] @ '' ''"

definition liAfterFeels :: string where
  "liAfterFeels =
     [CHR 0xC2, CHR 0xB0] @ ''C), '' @
     [CHR 0xD0, CHR 0xB4, CHR 0xD0, CHR 0xB0, CHR 0xD0, CHR 0xB2, CHR 0xD0, CHR 0xBB, CHR 0xD0, CHR 0xB5, CHR 0xD0, CHR 0xBD] @
     [CHR 0xD0, CHR 0xB8, CHR 0xD0, CHR 0xB5] @ '' ''"

definition liAfterPressure :: string where
  "liAfterPressure =
     '' '' @ [CHR 0xD0, CHR 0xBC, CHR 0xD0, CHR 0xBC] @ ''.'' @
     [CHR 0xD1, CHR 0x80, CHR 0xD1, CHR 0x82] @ ''.'' @
     [CHR 0xD1, CHR 0x81, CHR 0xD1, CHR 0x82] @ '', '' @
     [CHR 0xD0, CHR 0xB2, CHR 0xD0, CHR 0xB5, CHR 0xD1, CHR 0x82, CHR 0xD0, CHR 0xB5, CHR 0xD1, CHR 0x80] @
     '' ''"

definition liAfterWind :: string where
  "liAfterWind =
     '' '' @ [CHR 0xD0, CHR 0xBC] @ ''/'' @ [CHR 0xD1, CHR 0x81] @ '', ''"

definition liClose :: string where
  "liClose = ''</li>''"

text \<open>One \<^verbatim>\<open><li>\<close> entry: the arguments of the \<^verbatim>\<open>Sprintf\<close> in the order of its verbs.\<close>

definition entryLine :: "env \<Rightarrow> forecastAPIResp \<Rightarrow> string" where
  "entryLine env entry =
     (let t = formatTime env (Dt entry);
          desc = (case Weather entry of [] \<Rightarrow> ''N/A'' | d # _ \<Rightarrow> d)
      in liOpen @ t @ liAfterTime @ formatFloat1 env (Temp entry) @ liAfterTemp @
         formatFloat1 env (FeelsLike entry) @ liAfterFeels @
         formatFloat1 env (real_of_int (sint (Pressure entry)) * 0.75) @ liAfterPressure @
         formatFloat1 env (Speed entry) @ liAfterWind @ desc @ liClose)"

text \<open>What one iteration of the outer loop of \<^verbatim>\<open>createEmailBody\<close> adds for a non-empty forecast.\<close>

definition citySection :: "env \<Rightarrow> string \<Rightarrow> forecastAPIResp list \<Rightarrow> string" where
  "citySection env name forecast =
     ''<h2><b>'' @ name @ ''</b></h2>'' @ ''<ul>'' @ concat (map (entryLine env) forecast) @
     ''</ul>''"

text \<open>
  The outer loop, \<open>i\<close> being the index into \<^verbatim>\<open>forecastParts\<close>: the header of part \<open>i\<close> is
  \<^verbatim>\<open>cities[i]\<close>, and an index past the end of \<^verbatim>\<open>cities\<close> is a run-time panic.
\<close>

fun emailSections ::
  "env \<Rightarrow> nat \<Rightarrow> forecastAPIResp list list \<Rightarrow> string list \<Rightarrow> string \<Rightarrow> string outcome" where
  "emailSections env i [] cities body = Done body"
| "emailSections env i (forecast # rest) cities body =
     (if length forecast = 0 then emailSections env (Suc i) rest cities body
      else if i < length cities
      then emailSections env (Suc i) rest cities (body @ citySection env (cities ! i) forecast)
      else Panic)"

text \<open>\<^verbatim>\<open>createEmailBody\<close>; its error result is always \<^verbatim>\<open>nil\<close> and is left out.\<close>

definition createEmailBody ::
  "env \<Rightarrow> forecastAPIResp list list \<Rightarrow> string list \<Rightarrow> string outcome" where
  "createEmailBody env forecastParts cities =
     (case emailSections env 0 forecastParts cities bodyHead of
        Panic \<Rightarrow> Panic
      | Done body \<Rightarrow> Done (body @ bodyTail))"

definition dailyTask :: "string \<Rightarrow> string \<Rightarrow> EmailTask" where
  "dailyTask email body =
     \<lparr>To = email, Subject = dailySubject, Body = body, Type = ''daily_forecast'',
      Meta = [(''sent_by'', ''weather_service'')]\<rparr>"

text \<open>
  The inner loop of \<^verbatim>\<open>sendWeatherEmails\<close> over one user's cities. \<open>cache\<close> is
  \<^verbatim>\<open>mapOfCityWeatherForecast\<close>, \<open>parts\<close> is \<^verbatim>\<open>forecastParts\<close>; \<open>calls\<close> records every
  forecast request with the city it was made for and whether it succeeded.
\<close>

type_synonym forecastCache = "string \<rightharpoonup> forecastAPIResp list"

fun collectForecasts ::
  "env \<Rightarrow> registry \<Rightarrow> string list \<Rightarrow> forecastCache \<Rightarrow> (string \<times> bool) list
     \<Rightarrow> forecastAPIResp list list
     \<Rightarrow> (forecastCache \<times> (string \<times> bool) list \<times> forecastAPIResp list list) outcome" where
  "collectForecasts env reg [] cache calls parts = Done (cache, calls, parts)"
| "collectForecasts env reg (city # rest) cache calls parts =
     (case cache city of
        Some val \<Rightarrow> collectForecasts env reg rest cache calls (parts @ [val])
      | None \<Rightarrow>
          (case map_of reg city of
             None \<Rightarrow> collectForecasts env reg rest cache calls parts
           | Some cityData \<Rightarrow>
               (case getWeatherForecast env (length calls) cityData of
                  Panic \<Rightarrow> Panic
                | Done (forecast, Some e) \<Rightarrow>
                    collectForecasts env reg rest cache (calls @ [(city, False)]) parts
                | Done (forecast, None) \<Rightarrow>
                    collectForecasts env reg rest (cache(city \<mapsto> forecast))
                      (calls @ [(city, True)]) (parts @ [forecast]))))"

text \<open>
  The body of the loop over the user rows: a row that does not scan is skipped, a user
  without any forecast is skipped, and the result of the publish is only logged.
\<close>

fun dispatchRow ::
  "env \<Rightarrow> userRow \<Rightarrow> forecastCache \<times> world \<Rightarrow> (forecastCache \<times> world) outcome" where
  "dispatchRow env ScanError (cache, w) = Done (cache, w)"
| "dispatchRow env (UserRow email cities) (cache, w) =
     (case collectForecasts env (mapOfCities w) cities cache (forecastCalls w) [] of
        Panic \<Rightarrow> Panic
      | Done (cache', calls, forecastParts) \<Rightarrow>
          if length forecastParts = 0 then Done (cache', w\<lparr>forecastCalls := calls\<rparr>)
          else (case createEmailBody env forecastParts cities of
                  Panic \<Rightarrow> Panic
                | Done body \<Rightarrow>
                    Done (cache',
                      snd (publishEmailTask env (dailyTask email body)
                             (w\<lparr>forecastCalls := calls\<rparr>)))))"

fun dispatchRows ::
  "env \<Rightarrow> userRow list \<Rightarrow> forecastCache \<times> world \<Rightarrow> (forecastCache \<times> world) outcome" where
  "dispatchRows env [] s = Done s"
| "dispatchRows env (row # rest) s =
     (case dispatchRow env row s of
        Panic \<Rightarrow> Panic
      | Done s' \<Rightarrow> dispatchRows env rest s')"

text \<open>\<^verbatim>\<open>sendWeatherEmails\<close>: one dispatch tick, with a cache made afresh.\<close>

definition sendWeatherEmails :: "env \<Rightarrow> world \<Rightarrow> (error option \<times> world) outcome" where
  "sendWeatherEmails env w =
     (case selectUsers env of
        None \<Rightarrow> Done (Some SelectError, w)
      | Some rows \<Rightarrow>
          (case dispatchRows env rows (Map.empty, w) of
             Panic \<Rightarrow> Panic
           | Done (cache, w') \<Rightarrow> Done (None, w')))"

text \<open>
  The property the dispatch tick is checked against: in a record of forecast requests,
  no request for a city follows a successful request for it.
\<close>

fun noCallAfterSuccess :: "(string \<times> bool) list \<Rightarrow> bool" where
  "noCallAfterSuccess [] = True"
| "noCallAfterSuccess ((city, ok) # later) =
     ((ok \<longrightarrow> city \<notin> fst ` set later) \<and> noCallAfterSuccess later)"

section \<open>User registration: \<^verbatim>\<open>createUser\<close>\<close>

definition welcomeTask :: "string \<Rightarrow> EmailTask" where
  "welcomeTask userEmail =
     \<lparr>To = userEmail, Subject = welcomeSubject, Body = welcomeBody, Type = ''welcome'',
      Meta = [(''sent_by'', ''weather_service'')]\<rparr>"

definition publishWelcomeEmail :: "env \<Rightarrow> string \<Rightarrow> world \<Rightarrow> error option \<times> world" where
  "publishWelcomeEmail env userEmail w =
     (case publishEmailTask env (welcomeTask userEmail) w of
        (Some e, w') \<Rightarrow> (Some (WelcomePublishError e), w')
      | (None, w') \<Rightarrow> (None, w'))"

text \<open>
  \<^verbatim>\<open>createUser\<close>, on the decoded request body (\<open>None\<close> when it does not decode). The
  welcome message is published by a goroutine of its own whose result is only logged;
  here it runs at once.
\<close>

definition createUser ::
  "env \<Rightarrow> nat list \<Rightarrow> UserData option \<Rightarrow> world \<Rightarrow> error option \<times> world" where
  "createUser env seed request w =
     (case request of
        None \<Rightarrow> (Some RequestDecodeError, w)
      | Some userData \<Rightarrow>
          (case selectEmail env (Email userData) of
             RowFound \<Rightarrow> (Some errUserExist, w)
           | SelectFailed \<Rightarrow> (Some SelectError, w)
           | NoRows \<Rightarrow>
               if Email userData = [] \<or> Password userData = [] then (Some MissingFields, w)
               else (case hashPassword env (Password userData) of
                       None \<Rightarrow> (Some HashError, w)
                     | Some hash \<Rightarrow>
                         (case addCitiesToDB env seed (Cities userData) w of
                            (Inl e, w1) \<Rightarrow> (Some (AddCitiesError e), w1)
                          | (Inr addedCities, w1) \<Rightarrow>
                              if \<not> insertUser env (Email userData, hash, addedCities)
                              then (Some InsertError, w1)
                              else (None,
                                snd (publishWelcomeEmail env (Email userData)
                                       (w1\<lparr>usersTable := usersTable w1 @
                                             [(Email userData, hash, addedCities)]\<rparr>)))))))"

section \<open>Concrete collaborators for the scenarios\<close>

text \<open>
  A world in which nothing has happened yet, and collaborators that accept every write
  while the provider never answers; the scenarios below override single operations. The
  wire form of a task is stood in for by its recipient and body, and the two formatting
  functions by constant strings.
\<close>

definition emptyWorld :: world where
  "emptyWorld = \<lparr>mapOfCities = [], citiesTable = [], weatherMetrics = [], usersTable = [],
     rabbitChannel = True, queue = [], geoCalls = [], weatherCalls = [], forecastCalls = [],
     publishCalls = 0\<rparr>"

definition quietEnv :: env where
  "quietEnv = \<lparr>geocode = (\<lambda>n name. NoReply), currentWeather = (\<lambda>n c. NoReply),
     hourlyForecast = (\<lambda>n c. NoReply), prepareBatch = (\<lambda>t. True),
     appendCity = (\<lambda>b r. True), sendCities = (\<lambda>b. True),
     appendMetric = (\<lambda>b r. True), sendMetrics = (\<lambda>b. True),
     selectEmail = (\<lambda>e. NoRows), insertUser = (\<lambda>u. True), selectUsers = Some [],
     hashPassword = (\<lambda>p. Some p), marshal = (\<lambda>t. Some (To t @ ''|'' @ Body t)),
     publish = (\<lambda>n m. True), formatTime = (\<lambda>t. ''t''), formatFloat1 = (\<lambda>x. ''f'')\<rparr>"

definition cityAt :: "string \<Rightarrow> CityType" where
  "cityAt name = \<lparr>Name = name, Lat = 1, Lon = 2\<rparr>"

text \<open>A geocoder that knows every name except Rome.\<close>

definition romeDown :: env where
  "romeDown = quietEnv\<lparr>geocode :=
     (\<lambda>n name. if name = ''Rome'' then NoReply else Reply 200 (Decoded [cityAt name]))\<rparr>"




definition abc :: registry where
  "abc = [(''A'', cityAt ''A''), (''B'', cityAt ''B''), (''C'', cityAt ''C'')]"

text \<open>A forecast reply of one point, in a backing array with room for \<open>room\<close> more.\<close>

definition point :: forecastAPIResp where
  "point = \<lparr>Dt = 0, Temp = 1, FeelsLike = 2, Pressure = 1000, Speed = 3, Weather = []\<rparr>"

definition shortReply :: "nat \<Rightarrow> listForecastAPIResp" where
  "shortReply room =
     \<lparr>Cnt = 1, List = \<lparr>items = [point], spare = replicate room zeroForecast\<rparr>,
      fCityName = ''Berlin''\<rparr>"

definition shortForecast :: "nat \<Rightarrow> env" where
  "shortForecast room =
     quietEnv\<lparr>hourlyForecast := (\<lambda>n c. Reply 200 (Decoded (shortReply room)))\<rparr>"

text \<open>A user store in which every address is already registered.\<close>

definition allRegistered :: env where
  "allRegistered = quietEnv\<lparr>selectEmail := (\<lambda>e. RowFound)\<rparr>"


text \<open>
  A forecast service that answers for the city named A only, with a day of 24 points; one
  that fails its first request and answers from then on; a broker that refuses every
  message; and a world whose registry holds A, B and C.
\<close>

definition dayReply :: listForecastAPIResp where
  "dayReply =
     \<lparr>Cnt = 24, List = \<lparr>items = replicate 24 point, spare = []\<rparr>, fCityName = ''A''\<rparr>"

definition aOnly :: env where
  "aOnly = quietEnv\<lparr>hourlyForecast :=
     (\<lambda>n c. if Name c = ''A'' then Reply 200 (Decoded dayReply) else NoReply)\<rparr>"

definition flaky :: env where
  "flaky = quietEnv\<lparr>hourlyForecast :=
       (\<lambda>n c. if n = 0 then NoReply else Reply 200 (Decoded dayReply)),
     selectUsers := Some [UserRow ''u@x'' [''A''], UserRow ''v@x'' [''A'']]\<rparr>"

definition brokerDown :: env where
  "brokerDown = aOnly\<lparr>publish := (\<lambda>n m. False)\<rparr>"

definition abcWorld :: world where
  "abcWorld = emptyWorld\<lparr>mapOfCities := abc\<rparr>"

section \<open>The order of a \<^verbatim>\<open>range\<close>\<close>

lemma mset_place: "mset (place i x xs) = add_mset x (mset xs)"
proof -
  have "mset (take k xs @ x # drop k xs) = add_mset x (mset xs)" for k
  proof -
    have "mset (take k xs) + mset (drop k xs) = mset (take k xs @ drop k xs)"
      by (simp only: mset_append)
    then have "mset (take k xs) + mset (drop k xs) = mset xs"
      by (simp only: append_take_drop_id)
    then show ?thesis by simp
  qed
  then show ?thesis unfolding place_def .
qed

lemma mset_rangeOrder: "mset (rangeOrder seed xs) = mset xs"
  by (induction seed xs rule: rangeOrder.induct) (simp_all add: mset_place)

lemma rangeOrder_complete: "mset ys = mset xs \<Longrightarrow> \<exists>seed. rangeOrder seed xs = ys"
proof (induction xs arbitrary: ys)
  case Nil
  then show ?case by simp
next
  case (Cons x xs)
  then have "x \<in> set ys" by (metis list.set_intros(1) mset_eq_setD)
  then obtain as bs where ys: "ys = as @ x # bs" by (auto dest: split_list)
  with Cons.prems have "mset (as @ bs) = mset xs" by simp
  from Cons.IH [OF this] obtain seed where seed: "rangeOrder seed xs = as @ bs" by blast
  have "rangeOrder (length as # seed) (x # xs) = ys"
    by (simp add: seed ys place_def)
  then show ?case by blast
qed

lemma set_rangeOrder: "set (rangeOrder seed xs) = set xs"
  using mset_rangeOrder [of seed xs] by (metis set_mset_mset)


lemma distinct_keys_rangeOrder:
  "distinct (map fst (rangeOrder seed xs)) = distinct (map fst xs)"
proof -
  have "mset (map fst (rangeOrder seed xs)) = mset (map fst xs)"
    by (simp add: mset_rangeOrder)
  then show ?thesis by (rule mset_eq_imp_distinct_iff)
qed

lemma getCoordinates_error_zero:
  "getCoordinates env n name = (city, Some e) \<Longrightarrow> city = zeroCity"
  by (auto simp: getCoordinates_def split: reply.splits body.splits list.splits if_splits)

lemma resolveCities_calls:
  "resolveCities env reg names tmp batch added calls = (r, calls') \<Longrightarrow>
     (\<exists>k\<le>length names. calls' = calls @ take k names) \<and>
     ((\<exists>x. r = Inr x) \<longrightarrow> calls' = calls @ names)"
proof (induction names arbitrary: tmp batch added calls)
  case Nil
  then show ?case by auto
next
  case (Cons name rest)
  obtain city err where g: "getCoordinates env (length calls) name = (city, err)"
    by (cases "getCoordinates env (length calls) name")
  have step: "(\<exists>k\<le>length rest. calls' = (calls @ [name]) @ take k rest) \<and>
     ((\<exists>x. r = Inr x) \<longrightarrow> calls' = (calls @ [name]) @ rest) \<Longrightarrow> ?case"
  proof -
    assume a: "(\<exists>k\<le>length rest. calls' = (calls @ [name]) @ take k rest) \<and>
     ((\<exists>x. r = Inr x) \<longrightarrow> calls' = (calls @ [name]) @ rest)"
    then obtain k where k: "k \<le> length rest" "calls' = (calls @ [name]) @ take k rest" by blast
    then have "Suc k \<le> length (name # rest) \<and> calls' = calls @ take (Suc k) (name # rest)" by simp
    with a show ?case by (metis append.assoc append_Cons append_Nil)
  qed
  have stop: "calls' = calls @ [name] \<Longrightarrow> \<not> (\<exists>x. r = Inr x) \<Longrightarrow> ?case"
  proof -
    assume a: "calls' = calls @ [name]" "\<not> (\<exists>x. r = Inr x)"
    then have "Suc 0 \<le> length (name # rest) \<and> calls' = calls @ take (Suc 0) (name # rest)" by simp
    with a show ?case by blast
  qed
  show ?case
  proof (cases "map_of reg (Name city) \<noteq> None")
    case True
    with Cons.prems g have "resolveCities env reg rest tmp batch (added @ [Name city]) (calls @ [name]) = (r, calls')"
      by simp
    from Cons.IH [OF this] show ?thesis by (rule step)
  next
    case False
    show ?thesis
    proof (cases err)
      case (Some e)
      with False Cons.prems g show ?thesis by (intro stop) auto
    next
      case None
      show ?thesis
      proof (cases "appendCity env batch (Name city, Lat city, Lon city)")
        case True
        with None False Cons.prems g have "resolveCities env reg rest (AList.update (Name city) city tmp)
                           (batch @ [(Name city, Lat city, Lon city)]) added
                           (calls @ [name]) = (r, calls')" by simp
        from Cons.IH [OF this] show ?thesis by (rule step)
      next
        case F2: False
        with None False Cons.prems g show ?thesis by (intro stop) auto
      qed
    qed
  qed
qed

lemma resolveCities_fresh:
  "resolveCities env reg names tmp batch added calls = (Inr (tmp', batch', added'), calls') \<Longrightarrow>
   \<forall>k\<in>fst ` set tmp. map_of reg k = None \<Longrightarrow> distinct (map fst tmp) \<Longrightarrow>
   (\<forall>k\<in>fst ` set tmp'. map_of reg k = None) \<and> distinct (map fst tmp')"
proof (induction names arbitrary: tmp batch added calls)
  case Nil
  then show ?case by auto
next
  case (Cons name rest)
  obtain city err where g: "getCoordinates env (length calls) name = (city, err)"
    by (cases "getCoordinates env (length calls) name")
  show ?case
  proof (cases "map_of reg (Name city) \<noteq> None")
    case True
    with Cons.prems g have "resolveCities env reg rest tmp batch (added @ [Name city]) (calls @ [name]) = (Inr (tmp', batch', added'), calls')"
      by simp
    from Cons.IH [OF this Cons.prems(2,3)] show ?thesis .
  next
    case False
    with Cons.prems(1) g have e: "err = None" and a: "appendCity env batch (Name city, Lat city, Lon city)"
      by (auto split: option.splits if_splits)
    with False Cons.prems(1) g have r: "resolveCities env reg rest (AList.update (Name city) city tmp)
                           (batch @ [(Name city, Lat city, Lon city)]) added
                           (calls @ [name]) = (Inr (tmp', batch', added'), calls')" by simp
    have "\<forall>k\<in>fst ` set (AList.update (Name city) city tmp). map_of reg k = None"
      using False Cons.prems(2) by (auto simp: dom_update)
    moreover have "distinct (map fst (AList.update (Name city) city tmp))"
      using Cons.prems(3) by (rule distinct_update)
    ultimately show ?thesis by (rule Cons.IH [OF r])
  qed
qed

lemma fold_update_keeps:
  "map_of reg k = Some v \<Longrightarrow> k \<notin> fst ` set xs \<Longrightarrow>
   map_of (fold (\<lambda>(k, v). AList.update k v) xs reg) k = Some v"
  by (induction xs arbitrary: reg) (auto simp: update_conv')

lemma fold_update_distinct:
  "distinct (map fst reg) \<Longrightarrow> distinct (map fst (fold (\<lambda>(k, v). AList.update k v) xs reg))"
  by (induction xs arbitrary: reg) (auto simp: distinct_update)


section \<open>Properties of registration\<close>

lemmas scenario_defs =
  quietEnv_def emptyWorld_def cityAt_def zeroCity_def zeroWeather_def

lemma addCitiesToDB_error_keeps_stores:
  "addCitiesToDB env seed names w = (Inl e, w') \<Longrightarrow>
     mapOfCities w' = mapOfCities w \<and> citiesTable w' = citiesTable w"
  by (auto simp: addCitiesToDB_def split: if_splits prod.splits sum.splits)

lemma resolveCities_failure_reported:
  "map_of reg [] = None \<Longrightarrow>
   \<exists>i<length names. snd (getCoordinates env (length calls + i) (names ! i)) \<noteq> None \<Longrightarrow>
   \<exists>e. fst (resolveCities env reg names tmp batch added calls) = Inl e"
proof (induction names arbitrary: tmp batch added calls)
  case Nil
  then show ?case by simp
next
  case (Cons name rest)
  obtain city err where g: "getCoordinates env (length calls) name = (city, err)"
    by (cases "getCoordinates env (length calls) name")
  show ?case
  proof (cases err)
    case (Some e)
    with g have "city = zeroCity" by (simp add: getCoordinates_error_zero)
    with Cons.prems(1) have "map_of reg (Name city) = None" by (simp add: zeroCity_def)
    with g Some show ?thesis by simp
  next
    case None
    from Cons.prems(2) obtain i where i: "i < length (name # rest)"
      "snd (getCoordinates env (length calls + i) ((name # rest) ! i)) \<noteq> None" by blast
    with g None obtain j where j: "i = Suc j" by (cases i) auto
    with i have "\<exists>i<length rest. snd (getCoordinates env (length (calls @ [name]) + i) (rest ! i)) \<noteq> None"
      by auto
    from Cons.IH [OF Cons.prems(1) this] g None show ?thesis
      by (auto split: if_splits)
  qed
qed


lemma addCitiesToDB_failure_reported:
  assumes "map_of (mapOfCities w) [] = None"
    and "\<exists>i<length names.
           snd (getCoordinates env (length (geoCalls w) + i) (names ! i)) \<noteq> None"
  shows "\<exists>e w'. addCitiesToDB env seed names w = (Inl e, w') \<and>
           mapOfCities w' = mapOfCities w \<and> citiesTable w' = citiesTable w"
proof -
  obtain r w' where run: "addCitiesToDB env seed names w = (r, w')"
    by (cases "addCitiesToDB env seed names w")
  from resolveCities_failure_reported [OF assms, of "[]" "[]" "[]"]
  obtain e where "fst (resolveCities env (mapOfCities w) names [] [] [] (geoCalls w)) = Inl e"
    by (elim exE)
  with run obtain e' where "r = Inl e'"
    by (auto simp: addCitiesToDB_def split: if_splits prod.splits)
  with run addCitiesToDB_error_keeps_stores [of env seed names w e' w'] show ?thesis by simp
qed

lemma addCitiesToDB_refused_batch_reported:
  assumes "addCitiesToDB env seed names w = (r, w')" and "\<forall>batch. \<not> sendCities env batch"
  shows "\<exists>e. r = Inl e \<and> mapOfCities w' = mapOfCities w \<and> citiesTable w' = citiesTable w"
proof -
  from assms obtain e where "r = Inl e"
    by (auto simp: addCitiesToDB_def split: if_splits prod.splits sum.splits)
  with assms(1) addCitiesToDB_error_keeps_stores [of env seed names w e w'] show ?thesis by simp
qed

text \<open>
  C1. The claim: when resolving a name fails, \<^verbatim>\<open>addCitiesToDB\<close> returns an error and the
  registry is what it was. The code looks the registry up under the name of the
  geocoder's result before it looks at the geocoder's error, and the result that comes
  with an error is the zero city, whose name is empty. With an entry under the empty name
  in the registry, the failure to resolve Rome is taken for a city already known: the call
  succeeds, returns the empty name among the cities, and commits Paris.
\<close>

theorem addCitiesToDB_failure_taken_for_known_city:
  "snd (getCoordinates romeDown 1 ''Rome'') = Some RequestError \<and>
   addCitiesToDB romeDown [] [''Paris'', ''Rome'']
       (emptyWorld\<lparr>mapOfCities := [([], zeroCity)]\<rparr>) =
     (Inr [[], ''Paris''],
      emptyWorld\<lparr>mapOfCities := [([], zeroCity), (''Paris'', cityAt ''Paris'')],
        citiesTable := [(''Paris'', 1, 2)], geoCalls := [''Paris'', ''Rome'']\<rparr>)"
  by (simp add: addCitiesToDB_def romeDown_def getCoordinates_def scenario_defs)

text \<open>
  C5, as the claim states it, fails: registering Tokyo, Tokyo, Oslo against an empty
  registry sends three geocoding requests, not one per distinct name, and registering
  Tokyo again sends a fourth.
\<close>

theorem addCitiesToDB_geocodes_duplicates_and_known:
  "geoCalls (snd (addCitiesToDB romeDown [] [''Tokyo'', ''Tokyo'', ''Oslo''] emptyWorld)) =
     [''Tokyo'', ''Tokyo'', ''Oslo''] \<and>
   length (geoCalls (snd (addCitiesToDB romeDown [] [''Tokyo'', ''Tokyo'', ''Oslo''] emptyWorld)))
     \<noteq> length (remdups [''Tokyo'', ''Tokyo'', ''Oslo'']) \<and>
   map fst (mapOfCities
       (snd (addCitiesToDB romeDown [] [''Tokyo'', ''Tokyo'', ''Oslo''] emptyWorld))) =
     [''Tokyo'', ''Oslo''] \<and>
   geoCalls (snd (addCitiesToDB romeDown [] [''Tokyo'']
       (snd (addCitiesToDB romeDown [] [''Tokyo'', ''Tokyo'', ''Oslo''] emptyWorld)))) =
     [''Tokyo'', ''Tokyo'', ''Oslo'', ''Tokyo'']"
  by (simp add: addCitiesToDB_def romeDown_def getCoordinates_def scenario_defs)

text \<open>
  C5, amended. \<^verbatim>\<open>addCitiesToDB\<close> sends one geocoding request per element of its input,
  in input order, duplicates and registered names included: the requests of a call are a
  prefix of its input, and all of it when the call succeeds. What is free of duplicates
  is the registry: its names stay distinct, and an entry it holds is never replaced.
\<close>

theorem addCitiesToDB_geocodes_every_name:
  assumes "addCitiesToDB env seed names w = (r, w')"
  shows "(\<exists>k\<le>length names. geoCalls w' = geoCalls w @ take k names) \<and>
         ((\<exists>added. r = Inr added) \<longrightarrow> geoCalls w' = geoCalls w @ names) \<and>
         (distinct (map fst (mapOfCities w)) \<longrightarrow> distinct (map fst (mapOfCities w'))) \<and>
         (\<forall>k v. map_of (mapOfCities w) k = Some v \<longrightarrow> map_of (mapOfCities w') k = Some v)"
proof (cases "prepareBatch env ''cities''")
  case False
  with assms have "w' = w" "r = Inl PrepareBatchError" by (auto simp: addCitiesToDB_def)
  then show ?thesis by auto
next
  case True
  obtain res calls where rc: "resolveCities env (mapOfCities w) names [] [] [] (geoCalls w) = (res, calls)"
    by (cases "resolveCities env (mapOfCities w) names [] [] [] (geoCalls w)")
  note c = resolveCities_calls [OF rc]
  show ?thesis
  proof (cases res)
    case (Inl e)
    with assms True rc have "w' = w\<lparr>geoCalls := calls\<rparr>" "r = Inl e" by (auto simp: addCitiesToDB_def)
    with c show ?thesis by auto
  next
    case (Inr x)
    obtain tmp batch added where x: "x = (tmp, batch, added)" by (cases x)
    show ?thesis
    proof (cases "sendCities env batch")
      case False
      with assms True rc Inr x have "w' = w\<lparr>geoCalls := calls\<rparr>" "r = Inl SendBatchError"
        by (auto simp: addCitiesToDB_def)
      with c show ?thesis by auto
    next
      case S: True
      with assms True rc Inr x have w': "w' = w\<lparr>geoCalls := calls,
                        citiesTable := citiesTable w @ batch,
                        mapOfCities :=
                          fold (\<lambda>(k, v). AList.update k v) (rangeOrder seed tmp)
                            (mapOfCities w)\<rparr>"
        by (auto simp: addCitiesToDB_def)
      from rc Inr x have "(\<forall>k\<in>fst ` set tmp. map_of (mapOfCities w) k = None)"
        using resolveCities_fresh [of env "mapOfCities w" names "[]" "[]" "[]" "geoCalls w" tmp batch added calls]
        by simp
      then have fresh: "\<And>k v. map_of (mapOfCities w) k = Some v \<Longrightarrow> k \<notin> fst ` set (rangeOrder seed tmp)"
        by (auto simp: set_rangeOrder)
      from c Inr have "calls = geoCalls w @ names" by blast
      with w' have "geoCalls w' = geoCalls w @ names" by simp
      moreover have "\<exists>k\<le>length names. geoCalls w' = geoCalls w @ take k names"
        using c w' by simp
      moreover have "distinct (map fst (mapOfCities w)) \<longrightarrow> distinct (map fst (mapOfCities w'))"
        using w' by (simp add: fold_update_distinct)
      moreover have "\<forall>k v. map_of (mapOfCities w) k = Some v \<longrightarrow> map_of (mapOfCities w') k = Some v"
        using w' fresh by (simp add: fold_update_keeps)
      ultimately show ?thesis by blast
    qed
  qed
qed


theorem addCitiesToDB_geocodes_every_name_witness:
  "geoCalls (snd (addCitiesToDB romeDown [] [''Tokyo'', ''Tokyo'', ''Oslo''] emptyWorld)) =
     [''Tokyo'', ''Tokyo'', ''Oslo''] \<and>
   distinct (map fst (mapOfCities
     (snd (addCitiesToDB romeDown [] [''Tokyo'', ''Tokyo'', ''Oslo''] emptyWorld)))) \<and>
   length (mapOfCities
     (snd (addCitiesToDB romeDown [] [''Tokyo'', ''Tokyo'', ''Oslo''] emptyWorld))) = 2"
proof -
  let ?run = "addCitiesToDB romeDown [] [''Tokyo'', ''Tokyo'', ''Oslo''] emptyWorld"
  have run: "?run = (fst ?run, snd ?run)" by simp
  have ok: "\<exists>added. fst ?run = Inr added"
    by (simp add: addCitiesToDB_def romeDown_def getCoordinates_def scenario_defs)
  have two: "length (mapOfCities (snd ?run)) = 2"
    by (simp add: addCitiesToDB_def romeDown_def getCoordinates_def scenario_defs)
  have "distinct (map fst (mapOfCities emptyWorld))" by (simp add: emptyWorld_def)
  then have keys: "distinct (map fst (mapOfCities (snd ?run)))"
    by (rule addCitiesToDB_geocodes_every_name
          [OF run, THEN conjunct2, THEN conjunct2, THEN conjunct1, THEN mp])
  from ok have "geoCalls (snd ?run) = geoCalls emptyWorld @ [''Tokyo'', ''Tokyo'', ''Oslo'']"
    by (rule addCitiesToDB_geocodes_every_name
          [OF run, THEN conjunct2, THEN conjunct1, THEN mp])
  with keys two show ?thesis by (simp add: emptyWorld_def)
qed

section \<open>Properties of collection\<close>


lemma collectWeather_failure_reported:
  "\<exists>i<length cs. snd (getWeather env (length calls + i) (snd (cs ! i))) \<noteq> None \<Longrightarrow>
   \<exists>e. fst (collectWeather env cs batch calls) = Inl e"
proof (induction cs arbitrary: batch calls)
  case Nil
  then show ?case by simp
next
  case (Cons c rest)
  obtain cityName city where c: "c = (cityName, city)" by (cases c)
  obtain resp err where g: "getWeather env (length calls) city = (resp, err)"
    by (cases "getWeather env (length calls) city")
  show ?case
  proof (cases err)
    case (Some e)
    with c g show ?thesis by simp
  next
    case None
    from Cons.prems obtain i where i: "i < length (c # rest)"
      "snd (getWeather env (length calls + i) (snd ((c # rest) ! i))) \<noteq> None" by blast
    with c g None obtain j where "i = Suc j" by (cases i) auto
    with i have "\<exists>i<length rest. snd (getWeather env (length (calls @ [city]) + i) (snd (rest ! i))) \<noteq> None"
      by auto
    from Cons.IH [OF this] c g None show ?thesis by (auto split: if_splits)
  qed
qed







section \<open>Properties of the forecast client\<close>

lemma getWeatherForecast_error_empty:
  "getWeatherForecast env n city = Done (series, Some e) \<Longrightarrow> series = []"
  by (auto simp: getWeatherForecast_def sliceTo_def
      split: reply.splits body.splits if_splits outcome.splits)

lemma getWeatherForecast_success_24:
  "getWeatherForecast env n city = Done (series, None) \<Longrightarrow> length series = 24"
  by (auto simp: getWeatherForecast_def sliceTo_def
      split: reply.splits body.splits if_splits outcome.splits)

lemma getWeatherForecast_long_list:
  "hourlyForecast env n city = Reply 200 (Decoded resp) \<Longrightarrow> Cnt resp \<noteq> 0 \<Longrightarrow>
   24 \<le> length (items (List resp)) \<Longrightarrow>
   getWeatherForecast env n city = Done (take 24 (items (List resp)), None)"
  by (auto simp: getWeatherForecast_def sliceTo_def)

lemma getWeatherForecast_short_list:
  "hourlyForecast env n city = Reply 200 (Decoded resp) \<Longrightarrow> Cnt resp \<noteq> 0 \<Longrightarrow>
   items (List resp) \<noteq> [] \<Longrightarrow> length (items (List resp)) < 24 \<Longrightarrow>
   getWeatherForecast env n city =
     (if 24 \<le> length (items (List resp)) + length (spare (List resp))
      then Done (items (List resp) @
                 take (24 - length (items (List resp))) (spare (List resp)), None)
      else Panic)"
  by (auto simp: getWeatherForecast_def sliceTo_def)

text \<open>
  C7. The claim: on every path without an error the result is the first 24 points of the
  provider's list, and taking them is never out of bounds, also when the list is non-empty
  and shorter than 24. The code slices \<^verbatim>\<open>List[0:24]\<close> without looking at the length. For
  a reply of one point it panics when the backing array has room for fewer than 24
  elements (here none and 22 more), and the whole dispatch tick panics with it; when the
  backing array has room for 24, it returns that point followed by 23 zero points.
\<close>

theorem getWeatherForecast_short_list_panics:
  "getWeatherForecast (shortForecast 0) 0 (cityAt ''Berlin'') = Panic \<and>
   getWeatherForecast (shortForecast 22) 0 (cityAt ''Berlin'') = Panic \<and>
   getWeatherForecast (shortForecast 23) 0 (cityAt ''Berlin'') =
     Done (point # replicate 23 zeroForecast, None) \<and>
   take 24 (items (List (shortReply 23))) = [point] \<and>
   sendWeatherEmails (shortForecast 0\<lparr>selectUsers := Some [UserRow ''u@x'' [''Berlin'']]\<rparr>)
     (emptyWorld\<lparr>mapOfCities := [(''Berlin'', cityAt ''Berlin'')]\<rparr>) = Panic"
  by (simp add: getWeatherForecast_def sliceTo_def shortForecast_def shortReply_def
      sendWeatherEmails_def scenario_defs)

section \<open>Properties of user registration\<close>

text \<open>
  C10. When the lookup of the request's address finds a row, \<^verbatim>\<open>createUser\<close> returns
  \<^verbatim>\<open>errUserExist\<close> and leaves everything as it was: no field is validated, no password
  hashed, no geocoding request made, no city and no user row written, whatever the
  password, an empty one included.
\<close>

theorem createUser_existing_email_first:
  "selectEmail env (Email userData) = RowFound \<Longrightarrow>
   createUser env seed (Some userData) w = (Some errUserExist, w)"
  by (simp add: createUser_def)

theorem createUser_existing_email_first_witness:
  "createUser allRegistered [] (Some \<lparr>Email = ''a@b'', Password = [], Cities = [''Tokyo'']\<rparr>)
     emptyWorld = (Some errUserExist, emptyWorld)"
proof -
  have "selectEmail allRegistered (Email \<lparr>Email = ''a@b'', Password = [], Cities = [''Tokyo'']\<rparr>)
          = RowFound"
    by (simp add: allRegistered_def scenario_defs)
  then show ?thesis by (rule createUser_existing_email_first)
qed

section \<open>Properties of dispatch\<close>

lemma forecastCalls_publishEmailTask [simp]:
  "forecastCalls (snd (publishEmailTask env task w)) = forecastCalls w"
  by (simp add: publishEmailTask_def split: option.splits)

lemma mapOfCities_publishEmailTask [simp]:
  "mapOfCities (snd (publishEmailTask env task w)) = mapOfCities w"
  by (simp add: publishEmailTask_def split: option.splits)

lemma noCallAfterSuccess_snoc:
  "noCallAfterSuccess (new @ [(c, ok)]) = (noCallAfterSuccess new \<and> (c, True) \<notin> set new)"
  by (induction new rule: noCallAfterSuccess.induct) auto

lemma collectForecasts_hit:
  "cache city = Some val \<Longrightarrow>
   collectForecasts env reg (city # rest) cache calls parts =
     collectForecasts env reg rest cache calls (parts @ [val])"
  by simp

lemma collectForecasts_unregistered:
  "cache city = None \<Longrightarrow> map_of reg city = None \<Longrightarrow>
   collectForecasts env reg (city # rest) cache calls parts =
     collectForecasts env reg rest cache calls parts"
  by simp

lemma collectForecasts_failed:
  "cache city = None \<Longrightarrow> map_of reg city = Some cd \<Longrightarrow>
   getWeatherForecast env (length calls) cd = Done (series, Some e) \<Longrightarrow>
   collectForecasts env reg (city # rest) cache calls parts =
     collectForecasts env reg rest cache (calls @ [(city, False)]) parts"
  by simp

lemma collectForecasts_fetched:
  "cache city = None \<Longrightarrow> map_of reg city = Some cd \<Longrightarrow>
   getWeatherForecast env (length calls) cd = Done (series, None) \<Longrightarrow>
   collectForecasts env reg (city # rest) cache calls parts =
     collectForecasts env reg rest (cache(city \<mapsto> series)) (calls @ [(city, True)])
       (parts @ [series])"
  by simp

lemma collectForecasts_inv:
  "collectForecasts env reg cities cache (old @ new) parts = Done (cache', calls', parts') \<Longrightarrow>
   noCallAfterSuccess new \<Longrightarrow> \<forall>c. (c, True) \<in> set new \<longrightarrow> cache c \<noteq> None \<Longrightarrow>
   \<exists>new'. calls' = old @ new' \<and> noCallAfterSuccess new' \<and>
     (\<forall>c. (c, True) \<in> set new' \<longrightarrow> cache' c \<noteq> None) \<and>
     (\<forall>c v. cache c = Some v \<longrightarrow> cache' c = Some v)"
proof (induction cities arbitrary: cache new parts)
  case Nil
  then show ?case by auto
next
  case (Cons city rest)
  show ?case
  proof (cases "cache city")
    case (Some val)
    with Cons.prems(1) have
      "collectForecasts env reg rest cache (old @ new) (parts @ [val]) = Done (cache', calls', parts')"
      by simp
    from Cons.IH [OF this Cons.prems(2,3)] show ?thesis .
  next
    case None
    show ?thesis
    proof (cases "map_of reg city")
      case N2: None
      with None Cons.prems(1) have
        "collectForecasts env reg rest cache (old @ new) parts = Done (cache', calls', parts')"
        by simp
      from Cons.IH [OF this Cons.prems(2,3)] show ?thesis .
    next
      case (Some cd)
      from None Cons.prems(3) have fresh: "(city, True) \<notin> set new" by blast
      show ?thesis
      proof (cases "getWeatherForecast env (length (old @ new)) cd")
        case Panic
        with None Some Cons.prems(1) show ?thesis by simp
      next
        case (Done res)
        obtain series err where res: "res = (series, err)" by (cases res)
        show ?thesis
        proof (cases err)
          case E: (Some e)
          with None Some Done res Cons.prems(1) have
            "collectForecasts env reg rest cache (old @ (new @ [(city, False)])) parts =
               Done (cache', calls', parts')"
            by simp
          moreover have "noCallAfterSuccess (new @ [(city, False)])"
            using Cons.prems(2) fresh by (simp add: noCallAfterSuccess_snoc)
          moreover have "\<forall>c. (c, True) \<in> set (new @ [(city, False)]) \<longrightarrow> cache c \<noteq> None"
            using Cons.prems(3) by simp
          ultimately show ?thesis by (rule Cons.IH)
        next
          case N3: None
          with \<open>cache city = None\<close> Some Done res Cons.prems(1) have
            "collectForecasts env reg rest (cache(city \<mapsto> series)) (old @ (new @ [(city, True)]))
               (parts @ [series]) = Done (cache', calls', parts')"
            by simp
          moreover have "noCallAfterSuccess (new @ [(city, True)])"
            using Cons.prems(2) fresh by (simp add: noCallAfterSuccess_snoc)
          moreover have "\<forall>c. (c, True) \<in> set (new @ [(city, True)]) \<longrightarrow>
                           (cache(city \<mapsto> series)) c \<noteq> None"
            using Cons.prems(3) by simp
          ultimately obtain new' where n: "calls' = old @ new'" "noCallAfterSuccess new'"
            "\<forall>c. (c, True) \<in> set new' \<longrightarrow> cache' c \<noteq> None"
            "\<forall>c v. (cache(city \<mapsto> series)) c = Some v \<longrightarrow> cache' c = Some v"
            using Cons.IH by blast
          have "\<forall>c v. cache c = Some v \<longrightarrow> cache' c = Some v"
          proof (intro allI impI)
            fix c v assume cv: "cache c = Some v"
            with \<open>cache city = None\<close> have "c \<noteq> city" by auto
            with cv have "(cache(city \<mapsto> series)) c = Some v" by simp
            with n(4) show "cache' c = Some v" by blast
          qed
          with n(1-3) show ?thesis by blast
        qed
      qed
    qed
  qed
qed

lemma dispatchRow_inv:
  "dispatchRow env row (cache, w) = Done (cache', w') \<Longrightarrow> forecastCalls w = old @ new \<Longrightarrow>
   noCallAfterSuccess new \<Longrightarrow> \<forall>c. (c, True) \<in> set new \<longrightarrow> cache c \<noteq> None \<Longrightarrow>
   \<exists>new'. forecastCalls w' = old @ new' \<and> noCallAfterSuccess new' \<and>
     (\<forall>c. (c, True) \<in> set new' \<longrightarrow> cache' c \<noteq> None) \<and>
     (\<forall>c v. cache c = Some v \<longrightarrow> cache' c = Some v)"
proof (cases row)
  case ScanError
  then show "dispatchRow env row (cache, w) = Done (cache', w') \<Longrightarrow> forecastCalls w = old @ new \<Longrightarrow>
   noCallAfterSuccess new \<Longrightarrow> \<forall>c. (c, True) \<in> set new \<longrightarrow> cache c \<noteq> None \<Longrightarrow> ?thesis"
    by auto
next
  case (UserRow email cities)
  assume a: "dispatchRow env row (cache, w) = Done (cache', w')" "forecastCalls w = old @ new"
   "noCallAfterSuccess new" "\<forall>c. (c, True) \<in> set new \<longrightarrow> cache c \<noteq> None"
  from a(1) UserRow obtain c1 calls parts where
    cf: "collectForecasts env (mapOfCities w) cities cache (forecastCalls w) [] = Done (c1, calls, parts)"
    by (auto split: outcome.splits)
  with a(1) UserRow have r: "cache' = c1" "forecastCalls w' = calls"
    by (auto split: outcome.splits if_splits)
  from collectForecasts_inv [OF cf [unfolded a(2)] a(3,4)] r show ?thesis by simp
qed

lemma dispatchRows_inv:
  "dispatchRows env rows (cache, w) = Done (cache', w') \<Longrightarrow> forecastCalls w = old @ new \<Longrightarrow>
   noCallAfterSuccess new \<Longrightarrow> \<forall>c. (c, True) \<in> set new \<longrightarrow> cache c \<noteq> None \<Longrightarrow>
   \<exists>new'. forecastCalls w' = old @ new' \<and> noCallAfterSuccess new' \<and>
     (\<forall>c v. cache c = Some v \<longrightarrow> cache' c = Some v)"
proof (induction rows arbitrary: cache w new)
  case Nil
  then show ?case by auto
next
  case (Cons row rest)
  from Cons.prems(1) obtain c1 w1 where
    d: "dispatchRow env row (cache, w) = Done (c1, w1)"
    and rest: "dispatchRows env rest (c1, w1) = Done (cache', w')"
    by (auto split: outcome.splits)
  from dispatchRow_inv [OF d Cons.prems(2,3,4)] obtain new1 where n1:
    "forecastCalls w1 = old @ new1" "noCallAfterSuccess new1"
    "\<forall>c. (c, True) \<in> set new1 \<longrightarrow> c1 c \<noteq> None" "\<forall>c v. cache c = Some v \<longrightarrow> c1 c = Some v"
    by blast
  from Cons.IH [OF rest n1(1,2,3)] obtain new' where n':
    "forecastCalls w' = old @ new'" "noCallAfterSuccess new'"
    "\<forall>c v. c1 c = Some v \<longrightarrow> cache' c = Some v" by blast
  from n1(4) n'(3) have "\<forall>c v. cache c = Some v \<longrightarrow> cache' c = Some v" by blast
  with n'(1,2) show ?case by blast
qed

lemma sendWeatherEmails_no_call_after_success:
  "sendWeatherEmails env w = Done (r, w') \<Longrightarrow>
   \<exists>new. forecastCalls w' = forecastCalls w @ new \<and> noCallAfterSuccess new"
proof (cases "selectUsers env")
  case None
  assume "sendWeatherEmails env w = Done (r, w')"
  with None have "w' = w" by (simp add: sendWeatherEmails_def)
  then have "forecastCalls w' = forecastCalls w @ [] \<and> noCallAfterSuccess []" by simp
  then show ?thesis by blast
next
  case (Some rows)
  assume "sendWeatherEmails env w = Done (r, w')"
  with Some obtain cache' where d: "dispatchRows env rows (Map.empty, w) = Done (cache', w')"
    by (auto simp: sendWeatherEmails_def split: outcome.splits)
  from dispatchRows_inv [OF d, of "forecastCalls w" "[]"] show ?thesis by auto
qed

lemma queue_publishEmailTask_failed:
  "publishEmailTask env task w = (Some e, w1) \<Longrightarrow> queue w1 = queue w"
  by (auto simp: publishEmailTask_def split: option.splits if_splits)

lemma emailSections_single:
  "forecast \<noteq> [] \<Longrightarrow>
   emailSections env 0 [forecast] (city # others) body = Done (body @ citySection env city forecast)"
  by simp

lemma createEmailBody_single:
  "forecast \<noteq> [] \<Longrightarrow>
   createEmailBody env [forecast] (city # others) =
     Done (bodyHead @ citySection env city forecast @ bodyTail)"
  by (simp add: createEmailBody_def)

lemma collectForecasts_none:
  "\<forall>c\<in>set cities. cache c = None \<and>
      (map_of reg c = None \<or>
       (\<exists>cd. map_of reg c = Some cd \<and> (\<forall>n. \<exists>s e. getWeatherForecast env n cd = Done (s, Some e)))) \<Longrightarrow>
   \<exists>calls'. collectForecasts env reg cities cache calls parts = Done (cache, calls', parts)"
proof (induction cities arbitrary: calls)
  case Nil
  then show ?case by simp
next
  case (Cons city rest)
  then have rest: "\<forall>c\<in>set rest. cache c = None \<and>
      (map_of reg c = None \<or>
       (\<exists>cd. map_of reg c = Some cd \<and> (\<forall>n. \<exists>s e. getWeatherForecast env n cd = Done (s, Some e))))"
    by simp
  from Cons.prems have miss: "cache city = None" by simp
  from Cons.prems have "map_of reg city = None \<or>
       (\<exists>cd. map_of reg city = Some cd \<and> (\<forall>n. \<exists>s e. getWeatherForecast env n cd = Done (s, Some e)))"
    by simp
  then show ?case
  proof
    assume "map_of reg city = None"
    with miss Cons.IH [OF rest, of calls] show ?thesis by simp
  next
    assume "\<exists>cd. map_of reg city = Some cd \<and> (\<forall>n. \<exists>s e. getWeatherForecast env n cd = Done (s, Some e))"
    then obtain cd where cd: "map_of reg city = Some cd"
      and f: "\<forall>n. \<exists>s e. getWeatherForecast env n cd = Done (s, Some e)" by blast
    from f obtain s e where "getWeatherForecast env (length calls) cd = Done (s, Some e)" by blast
    with miss cd Cons.IH [OF rest, of "calls @ [(city, False)]"] show ?thesis by simp
  qed
qed

lemma dispatch_partial_digest:
  assumes A: "(cache A = Some fA \<and> fA \<noteq> [] \<and> callsA = forecastCalls w) \<or>
       (cache A = None \<and> map_of (mapOfCities w) A = Some cdA \<and>
        getWeatherForecast env (length (forecastCalls w)) cdA = Done (fA, None) \<and>
        callsA = forecastCalls w @ [(A, True)])"
    and B: "B \<noteq> A" "cache B = None"
      "map_of (mapOfCities w) B = None \<or>
         (\<exists>cdB sB e. map_of (mapOfCities w) B = Some cdB \<and>
            getWeatherForecast env (length callsA) cdB = Done (sB, Some e))"
    and P: "rabbitChannel w"
      "marshal env (dailyTask email (bodyHead @ citySection env A fA @ bodyTail)) = Some wire"
      "publish env (publishCalls w) wire"
  shows "\<exists>cache' w'. dispatchRow env (UserRow email [A, B]) (cache, w) = Done (cache', w') \<and>
           queue w' = queue w @ [wire] \<and> cache' B = None"
proof -
  from A have "\<exists>c1. fA \<noteq> [] \<and> c1 B = None \<and>
      collectForecasts env (mapOfCities w) [A, B] cache (forecastCalls w) [] =
        collectForecasts env (mapOfCities w) [B] c1 callsA [fA]"
  proof
    assume "cache A = Some fA \<and> fA \<noteq> [] \<and> callsA = forecastCalls w"
    with B(2) have "fA \<noteq> [] \<and> cache B = None \<and>
      collectForecasts env (mapOfCities w) [A, B] cache (forecastCalls w) [] =
        collectForecasts env (mapOfCities w) [B] cache callsA [fA]"
      by simp
    then show ?thesis by (rule exI [where x = cache])
  next
    assume a: "cache A = None \<and> map_of (mapOfCities w) A = Some cdA \<and>
        getWeatherForecast env (length (forecastCalls w)) cdA = Done (fA, None) \<and>
        callsA = forecastCalls w @ [(A, True)]"
    then have "length fA = 24" by (elim conjE) (rule getWeatherForecast_success_24)
    then have "fA \<noteq> []" by auto
    with a B(1,2) have "fA \<noteq> [] \<and> (cache(A \<mapsto> fA)) B = None \<and>
      collectForecasts env (mapOfCities w) [A, B] cache (forecastCalls w) [] =
        collectForecasts env (mapOfCities w) [B] (cache(A \<mapsto> fA)) callsA [fA]"
      by simp
    then show ?thesis by (rule exI [where x = "cache(A \<mapsto> fA)"])
  qed
  then obtain c1 where ne: "fA \<noteq> []" and miss: "c1 B = None"
    and first: "collectForecasts env (mapOfCities w) [A, B] cache (forecastCalls w) [] =
        collectForecasts env (mapOfCities w) [B] c1 callsA [fA]"
    by (elim exE conjE)
  from B(3) have "\<exists>calls. collectForecasts env (mapOfCities w) [B] c1 callsA [fA] =
      Done (c1, calls, [fA])"
  proof
    assume "map_of (mapOfCities w) B = None"
    with miss show ?thesis by simp
  next
    assume "\<exists>cdB sB e. map_of (mapOfCities w) B = Some cdB \<and>
          getWeatherForecast env (length callsA) cdB = Done (sB, Some e)"
    then obtain cdB sB e where "map_of (mapOfCities w) B = Some cdB"
      "getWeatherForecast env (length callsA) cdB = Done (sB, Some e)" by (elim exE conjE)
    with miss show ?thesis by simp
  qed
  with first obtain calls where
    cf: "collectForecasts env (mapOfCities w) [A, B] cache (forecastCalls w) [] =
           Done (c1, calls, [fA])"
    by auto
  have body: "createEmailBody env [fA] [A, B] = Done (bodyHead @ citySection env A fA @ bodyTail)"
    using ne by (rule createEmailBody_single)
  let ?w1 = "w\<lparr>forecastCalls := calls\<rparr>"
  have "publishEmailTask env (dailyTask email (bodyHead @ citySection env A fA @ bodyTail)) ?w1 =
     (None, ?w1\<lparr>publishCalls := Suc (publishCalls w), queue := queue w @ [wire]\<rparr>)"
    using P by (simp add: publishEmailTask_def)
  with cf body have "dispatchRow env (UserRow email [A, B]) (cache, w) =
     Done (c1, ?w1\<lparr>publishCalls := Suc (publishCalls w), queue := queue w @ [wire]\<rparr>)"
    by simp
  with miss show ?thesis by simp
qed

lemma dispatch_zero_series:
  "collectForecasts env (mapOfCities w) cities cache (forecastCalls w) [] = Done (cache', calls, []) \<Longrightarrow>
   dispatchRow env (UserRow email cities) (cache, w) = Done (cache', w\<lparr>forecastCalls := calls\<rparr>)"
  by simp

lemma dispatch_all_fail:
  assumes "\<forall>c\<in>set cities. cache c = None \<and>
      (map_of (mapOfCities w) c = None \<or>
       (\<exists>cd. map_of (mapOfCities w) c = Some cd \<and>
          (\<forall>n. \<exists>s e. getWeatherForecast env n cd = Done (s, Some e))))"
  shows "\<exists>w'. dispatchRow env (UserRow email cities) (cache, w) = Done (cache, w') \<and>
           queue w' = queue w \<and> publishCalls w' = publishCalls w"
proof -
  from collectForecasts_none [OF assms, of "forecastCalls w" "[]"] obtain calls where
    "collectForecasts env (mapOfCities w) cities cache (forecastCalls w) [] = Done (cache, calls, [])"
    by blast
  then have "dispatchRow env (UserRow email cities) (cache, w) = Done (cache, w\<lparr>forecastCalls := calls\<rparr>)"
    by (rule dispatch_zero_series)
  then show ?thesis by simp
qed

lemma dispatch_publish_failure:
  assumes "collectForecasts env (mapOfCities w) cities cache (forecastCalls w) [] =
             Done (cache', calls, parts)" "parts \<noteq> []"
    "createEmailBody env parts cities = Done body"
    "publishEmailTask env (dailyTask email body) (w\<lparr>forecastCalls := calls\<rparr>) = (Some e, w1)"
  shows "queue w1 = queue w \<and>
         dispatchRows env (UserRow email cities # rest) (cache, w) = dispatchRows env rest (cache', w1)"
proof -
  from assms(4) have "queue w1 = queue (w\<lparr>forecastCalls := calls\<rparr>)"
    by (rule queue_publishEmailTask_failed)
  moreover from assms have "dispatchRow env (UserRow email cities) (cache, w) = Done (cache', w1)"
    by simp
  ultimately show ?thesis by simp
qed

lemma two_users_one_call:
  assumes "selectUsers env = Some [UserRow e1 [city], UserRow e2 [city]]"
    "map_of (mapOfCities w) city = Some cd"
    "getWeatherForecast env (length (forecastCalls w)) cd = Done (series, None)"
  shows "\<exists>r w'. sendWeatherEmails env w = Done (r, w') \<and>
           forecastCalls w' = forecastCalls w @ [(city, True)]"
proof -
  from assms(3) have "length series = 24" by (rule getWeatherForecast_success_24)
  then have ne: "series \<noteq> []" by auto
  then have body: "createEmailBody env [series] [city] =
      Done (bodyHead @ citySection env city series @ bodyTail)"
    by (rule createEmailBody_single)
  let ?c1 = "Map.empty(city \<mapsto> series)"
  let ?calls = "forecastCalls w @ [(city, True)]"
  let ?w0 = "w\<lparr>forecastCalls := ?calls\<rparr>"
  let ?body = "bodyHead @ citySection env city series @ bodyTail"
  let ?w1 = "snd (publishEmailTask env (dailyTask e1 ?body) ?w0)"
  have d1: "dispatchRow env (UserRow e1 [city]) (Map.empty, w) = Done (?c1, ?w1)"
    using assms(2,3) body by simp
  have callsA: "forecastCalls ?w1 = ?calls" by simp
  have reg1: "mapOfCities ?w1 = mapOfCities w" by simp
  let ?w2 = "snd (publishEmailTask env (dailyTask e2 ?body) (?w1\<lparr>forecastCalls := ?calls\<rparr>))"
  have "collectForecasts env (mapOfCities ?w1) [city] ?c1 (forecastCalls ?w1) [] =
          Done (?c1, forecastCalls ?w1, [series])" by simp
  then have d2: "dispatchRow env (UserRow e2 [city]) (?c1, ?w1) = Done (?c1, ?w2)"
    using body callsA by (simp del: forecastCalls_publishEmailTask collectForecasts.simps)
  from d1 d2 have "dispatchRows env [UserRow e1 [city], UserRow e2 [city]] (Map.empty, w) =
      Done (?c1, ?w2)" by simp
  with assms(1) have "sendWeatherEmails env w = Done (None, ?w2)"
    by (simp add: sendWeatherEmails_def)
  moreover have "forecastCalls ?w2 = ?calls" by simp
  ultimately show ?thesis by blast
qed

lemma failed_fetch_is_retried:
  assumes "selectUsers env = Some [UserRow e1 [city], UserRow e2 [city]]"
    "map_of (mapOfCities w) city = Some cd"
    "getWeatherForecast env (length (forecastCalls w)) cd = Done (s1, Some e)"
    "getWeatherForecast env (Suc (length (forecastCalls w))) cd = Done (s2, r2)"
  shows "\<exists>r w'. sendWeatherEmails env w = Done (r, w') \<and>
           forecastCalls w' = forecastCalls w @ [(city, False), (city, r2 = None)]"
proof -
  let ?callsA = "forecastCalls w @ [(city, False)]"
  let ?w1 = "w\<lparr>forecastCalls := ?callsA\<rparr>"
  have d1: "dispatchRow env (UserRow e1 [city]) (Map.empty, w) = Done (Map.empty, ?w1)"
    using assms(2,3) by simp
  have "\<exists>c2 w2. dispatchRow env (UserRow e2 [city]) (Map.empty, ?w1) = Done (c2, w2) \<and>
          forecastCalls w2 = ?callsA @ [(city, r2 = None)]"
  proof (cases r2)
    case None
    from assms(4) None have "length s2 = 24" by (simp add: getWeatherForecast_success_24)
    then have "s2 \<noteq> []" by auto
    then have "createEmailBody env [s2] [city] =
      Done (bodyHead @ citySection env city s2 @ bodyTail)"
      by (rule createEmailBody_single)
    with assms(2,4) None show ?thesis by simp
  next
    case (Some e')
    with assms(2,4) show ?thesis by simp
  qed
  then obtain c2 w2 where d2: "dispatchRow env (UserRow e2 [city]) (Map.empty, ?w1) = Done (c2, w2)"
    and calls2: "forecastCalls w2 = ?callsA @ [(city, r2 = None)]" by blast
  from d1 d2 have "dispatchRows env [UserRow e1 [city], UserRow e2 [city]] (Map.empty, w) =
      Done (c2, w2)" by simp
  with assms(1) have "sendWeatherEmails env w = Done (None, w2)"
    by (simp add: sendWeatherEmails_def)
  with calls2 show ?thesis by simp
qed


lemmas dispatch_scenario_defs =
  aOnly_def brokerDown_def flaky_def abcWorld_def abc_def dayReply_def getWeatherForecast_def
  sliceTo_def dailyTask_def scenario_defs

text \<open>
  C3. Failures of a dispatch tick stay with the city and the user they belong to.
  First: for a user subscribed to A and B, where A's forecast comes from the cache or is
  fetched (\<open>callsA\<close> being the requests made once A is done) and B is not in the registry
  or its fetch returns an error, the digest whose only section is A's is handed to the
  broker, and the broker accepting it, it is on the queue.
  Second: a user whose every city is unregistered or fails, and more generally a user
  for whom the loop ends with no forecast series, gets no task: nothing is handed to the
  broker and the queue is as before. Third: when the publish of a user's digest fails,
  the queue is as before and the loop goes on with the remaining rows.
\<close>

theorem dispatch_isolates_failures:
  "(((cache A = Some fA \<and> fA \<noteq> [] \<and> callsA = forecastCalls w) \<or>
     (cache A = None \<and> map_of (mapOfCities w) A = Some cdA \<and>
      getWeatherForecast env (length (forecastCalls w)) cdA = Done (fA, None) \<and>
      callsA = forecastCalls w @ [(A, True)])) \<and>
    B \<noteq> A \<and> cache B = None \<and>
    (map_of (mapOfCities w) B = None \<or>
       (\<exists>cdB sB err. map_of (mapOfCities w) B = Some cdB \<and>
          getWeatherForecast env (length callsA) cdB = Done (sB, Some err))) \<and>
    rabbitChannel w \<and>
    marshal env (dailyTask email (bodyHead @ citySection env A fA @ bodyTail)) = Some wire \<and>
    publish env (publishCalls w) wire \<longrightarrow>
      (\<exists>c' w'. dispatchRow env (UserRow email [A, B]) (cache, w) = Done (c', w') \<and>
         queue w' = queue w @ [wire] \<and> c' B = None)) \<and>
   ((\<forall>c\<in>set cities. cache c = None \<and>
      (map_of (mapOfCities w) c = None \<or>
       (\<exists>cd. map_of (mapOfCities w) c = Some cd \<and>
          (\<forall>n. \<exists>s err. getWeatherForecast env n cd = Done (s, Some err))))) \<longrightarrow>
      (\<exists>w'. dispatchRow env (UserRow email cities) (cache, w) = Done (cache, w') \<and>
         queue w' = queue w \<and> publishCalls w' = publishCalls w)) \<and>
   (collectForecasts env (mapOfCities w) cities cache (forecastCalls w) [] =
      Done (cache', calls, []) \<longrightarrow>
      dispatchRow env (UserRow email cities) (cache, w) =
        Done (cache', w\<lparr>forecastCalls := calls\<rparr>)) \<and>
   (collectForecasts env (mapOfCities w) cities cache (forecastCalls w) [] =
      Done (cache', calls, parts) \<and> parts \<noteq> [] \<and>
    createEmailBody env parts cities = Done body \<and>
    publishEmailTask env (dailyTask email body) (w\<lparr>forecastCalls := calls\<rparr>) = (Some e, w1) \<longrightarrow>
      queue w1 = queue w \<and>
      dispatchRows env (UserRow email cities # rest) (cache, w) =
        dispatchRows env rest (cache', w1))"
proof (intro conjI impI)
  assume "((cache A = Some fA \<and> fA \<noteq> [] \<and> callsA = forecastCalls w) \<or>
     (cache A = None \<and> map_of (mapOfCities w) A = Some cdA \<and>
      getWeatherForecast env (length (forecastCalls w)) cdA = Done (fA, None) \<and>
      callsA = forecastCalls w @ [(A, True)])) \<and>
    B \<noteq> A \<and> cache B = None \<and>
    (map_of (mapOfCities w) B = None \<or>
       (\<exists>cdB sB err. map_of (mapOfCities w) B = Some cdB \<and>
          getWeatherForecast env (length callsA) cdB = Done (sB, Some err))) \<and>
    rabbitChannel w \<and>
    marshal env (dailyTask email (bodyHead @ citySection env A fA @ bodyTail)) = Some wire \<and>
    publish env (publishCalls w) wire"
  then show "\<exists>c' w'. dispatchRow env (UserRow email [A, B]) (cache, w) = Done (c', w') \<and>
         queue w' = queue w @ [wire] \<and> c' B = None"
    by (elim conjE) (rule dispatch_partial_digest)
next
  assume "\<forall>c\<in>set cities. cache c = None \<and>
      (map_of (mapOfCities w) c = None \<or>
       (\<exists>cd. map_of (mapOfCities w) c = Some cd \<and>
          (\<forall>n. \<exists>s err. getWeatherForecast env n cd = Done (s, Some err))))"
  then show "\<exists>w'. dispatchRow env (UserRow email cities) (cache, w) = Done (cache, w') \<and>
         queue w' = queue w \<and> publishCalls w' = publishCalls w"
    by (rule dispatch_all_fail)
next
  assume "collectForecasts env (mapOfCities w) cities cache (forecastCalls w) [] =
      Done (cache', calls, [])"
  then show "dispatchRow env (UserRow email cities) (cache, w) =
        Done (cache', w\<lparr>forecastCalls := calls\<rparr>)"
    by (rule dispatch_zero_series)
next
  assume a: "collectForecasts env (mapOfCities w) cities cache (forecastCalls w) [] =
      Done (cache', calls, parts) \<and> parts \<noteq> [] \<and>
    createEmailBody env parts cities = Done body \<and>
    publishEmailTask env (dailyTask email body) (w\<lparr>forecastCalls := calls\<rparr>) = (Some e, w1)"
  then have "queue w1 = queue w \<and>
      dispatchRows env (UserRow email cities # rest) (cache, w) =
        dispatchRows env rest (cache', w1)"
    by (elim conjE) (rule dispatch_publish_failure)
  then show "queue w1 = queue w" and
    "dispatchRows env (UserRow email cities # rest) (cache, w) =
        dispatchRows env rest (cache', w1)"
    by simp_all
qed

theorem dispatch_isolates_failures_witness:
  "(\<exists>c' w'. dispatchRow aOnly (UserRow ''u@x'' [''A'', ''B'']) (Map.empty, abcWorld) = Done (c', w') \<and>
      queue w' = queue abcWorld @
        [''u@x|'' @ bodyHead @ citySection aOnly ''A'' (replicate 24 point) @ bodyTail] \<and>
      c' ''B'' = None) \<and>
   (\<exists>w'. dispatchRow aOnly (UserRow ''u@x'' [''B'', ''C'']) (Map.empty, abcWorld) =
        Done (Map.empty, w') \<and>
      queue w' = queue abcWorld \<and> publishCalls w' = publishCalls abcWorld) \<and>
   queue (abcWorld\<lparr>forecastCalls := [(''A'', True)], publishCalls := 1\<rparr>) = queue abcWorld \<and>
   dispatchRows brokerDown [UserRow ''u@x'' [''A''], UserRow ''v@x'' [''A'']]
       (Map.empty, abcWorld) =
     dispatchRows brokerDown [UserRow ''v@x'' [''A'']]
       (Map.empty(''A'' \<mapsto> replicate 24 point),
        abcWorld\<lparr>forecastCalls := [(''A'', True)], publishCalls := 1\<rparr>)"
proof -
  have one: "\<exists>c' w'. dispatchRow aOnly (UserRow ''u@x'' [''A'', ''B'']) (Map.empty, abcWorld) = Done (c', w') \<and>
      queue w' = queue abcWorld @
        [''u@x|'' @ bodyHead @ citySection aOnly ''A'' (replicate 24 point) @ bodyTail] \<and>
      c' ''B'' = None"
    by (rule dispatch_isolates_failures
          [where cache = Map.empty and A = "''A''" and B = "''B''" and w = abcWorld
             and env = aOnly and cdA = "cityAt ''A''" and fA = "replicate 24 point"
             and callsA = "[(''A'', True)]" and email = "''u@x''",
           THEN conjunct1, THEN mp])
       (simp add: dispatch_scenario_defs)
  have two: "\<exists>w'. dispatchRow aOnly (UserRow ''u@x'' [''B'', ''C'']) (Map.empty, abcWorld) =
        Done (Map.empty, w') \<and>
      queue w' = queue abcWorld \<and> publishCalls w' = publishCalls abcWorld"
    by (rule dispatch_isolates_failures
          [where cache = Map.empty and w = abcWorld and env = aOnly
             and cities = "[''B'', ''C'']", THEN conjunct2, THEN conjunct1, THEN mp])
       (simp add: dispatch_scenario_defs)
  have three: "queue (abcWorld\<lparr>forecastCalls := [(''A'', True)], publishCalls := 1\<rparr>) = queue abcWorld \<and>
   dispatchRows brokerDown [UserRow ''u@x'' [''A''], UserRow ''v@x'' [''A'']]
       (Map.empty, abcWorld) =
     dispatchRows brokerDown [UserRow ''v@x'' [''A'']]
       (Map.empty(''A'' \<mapsto> replicate 24 point),
        abcWorld\<lparr>forecastCalls := [(''A'', True)], publishCalls := 1\<rparr>)"
    by (rule dispatch_isolates_failures
          [where cache = Map.empty and w = abcWorld and env = brokerDown
             and cities = "[''A'']" and calls = "[(''A'', True)]"
             and parts = "[replicate 24 point]" and e = PublishError
             and body = "bodyHead @ citySection brokerDown ''A'' (replicate 24 point) @ bodyTail",
           THEN conjunct2, THEN conjunct2, THEN conjunct2, THEN mp])
       (simp add: dispatch_scenario_defs createEmailBody_def publishEmailTask_def)
  show ?thesis
    by (intro conjI one two three [THEN conjunct1] three [THEN conjunct2])
qed

text \<open>
  C4. The cache of a dispatch tick keeps successes only. A city in the cache is served
  from it without a request; a successful fetch puts the series in the cache and a failed
  one leaves the cache as it was, so the next occurrence of the city is fetched again; a
  series in the cache stays there for the rest of the rows. Over a whole tick, no request
  for a city follows a successful request for it. Two users subscribed to the same
  city cost one request when it succeeds, and two when the first fails.
\<close>

theorem forecast_cache_keeps_successes_only:
  "(cache city = Some val \<longrightarrow>
      collectForecasts env reg (city # others) cache calls parts =
        collectForecasts env reg others cache calls (parts @ [val])) \<and>
   (cache city = None \<and> map_of reg city = Some cd \<and>
    getWeatherForecast env (length calls) cd = Done (series, None) \<longrightarrow>
      collectForecasts env reg (city # others) cache calls parts =
        collectForecasts env reg others (cache(city \<mapsto> series)) (calls @ [(city, True)])
          (parts @ [series])) \<and>
   (cache city = None \<and> map_of reg city = Some cd \<and>
    getWeatherForecast env (length calls) cd = Done (series, Some err) \<longrightarrow>
      collectForecasts env reg (city # others) cache calls parts =
        collectForecasts env reg others cache (calls @ [(city, False)]) parts) \<and>
   (dispatchRows env rows (cache, w) = Done (cache', w') \<and> cache city = Some val \<longrightarrow>
      cache' city = Some val) \<and>
   (sendWeatherEmails env w = Done (r, w') \<longrightarrow>
      (\<exists>new. forecastCalls w' = forecastCalls w @ new \<and> noCallAfterSuccess new)) \<and>
   (selectUsers env = Some [UserRow e1 [city], UserRow e2 [city]] \<and>
    map_of (mapOfCities w) city = Some cd \<and>
    getWeatherForecast env (length (forecastCalls w)) cd = Done (series, None) \<longrightarrow>
      (\<exists>r w'. sendWeatherEmails env w = Done (r, w') \<and>
         forecastCalls w' = forecastCalls w @ [(city, True)])) \<and>
   (selectUsers env = Some [UserRow e1 [city], UserRow e2 [city]] \<and>
    map_of (mapOfCities w) city = Some cd \<and>
    getWeatherForecast env (length (forecastCalls w)) cd = Done (s1, Some err) \<and>
    getWeatherForecast env (Suc (length (forecastCalls w))) cd = Done (s2, r2) \<longrightarrow>
      (\<exists>r w'. sendWeatherEmails env w = Done (r, w') \<and>
         forecastCalls w' = forecastCalls w @ [(city, False), (city, r2 = None)]))"
proof (intro conjI impI)
  assume "cache city = Some val"
  then show "collectForecasts env reg (city # others) cache calls parts =
        collectForecasts env reg others cache calls (parts @ [val])"
    by (rule collectForecasts_hit)
next
  assume "cache city = None \<and> map_of reg city = Some cd \<and>
    getWeatherForecast env (length calls) cd = Done (series, None)"
  then show "collectForecasts env reg (city # others) cache calls parts =
        collectForecasts env reg others (cache(city \<mapsto> series)) (calls @ [(city, True)])
          (parts @ [series])"
    by (elim conjE) (rule collectForecasts_fetched)
next
  assume "cache city = None \<and> map_of reg city = Some cd \<and>
    getWeatherForecast env (length calls) cd = Done (series, Some err)"
  then show "collectForecasts env reg (city # others) cache calls parts =
        collectForecasts env reg others cache (calls @ [(city, False)]) parts"
    by (elim conjE) (rule collectForecasts_failed)
next
  assume a: "dispatchRows env rows (cache, w) = Done (cache', w') \<and> cache city = Some val"
  then have d: "dispatchRows env rows (cache, w) = Done (cache', w')" by (rule conjunct1)
  have "\<exists>new'. forecastCalls w' = forecastCalls w @ new' \<and> noCallAfterSuccess new' \<and>
     (\<forall>c v. cache c = Some v \<longrightarrow> cache' c = Some v)"
    using d by (rule dispatchRows_inv [where new = "[]"]) simp_all
  with a show "cache' city = Some val" by blast
next
  assume "sendWeatherEmails env w = Done (r, w')"
  then show "\<exists>new. forecastCalls w' = forecastCalls w @ new \<and> noCallAfterSuccess new"
    by (rule sendWeatherEmails_no_call_after_success)
next
  assume "selectUsers env = Some [UserRow e1 [city], UserRow e2 [city]] \<and>
    map_of (mapOfCities w) city = Some cd \<and>
    getWeatherForecast env (length (forecastCalls w)) cd = Done (series, None)"
  then show "\<exists>r w'. sendWeatherEmails env w = Done (r, w') \<and>
         forecastCalls w' = forecastCalls w @ [(city, True)]"
    by (elim conjE) (rule two_users_one_call)
next
  assume "selectUsers env = Some [UserRow e1 [city], UserRow e2 [city]] \<and>
    map_of (mapOfCities w) city = Some cd \<and>
    getWeatherForecast env (length (forecastCalls w)) cd = Done (s1, Some err) \<and>
    getWeatherForecast env (Suc (length (forecastCalls w))) cd = Done (s2, r2)"
  then show "\<exists>r w'. sendWeatherEmails env w = Done (r, w') \<and>
         forecastCalls w' = forecastCalls w @ [(city, False), (city, r2 = None)]"
    by (elim conjE) (rule failed_fetch_is_retried)
qed

theorem forecast_cache_keeps_successes_only_witness:
  "(\<exists>r w'. sendWeatherEmails
        (aOnly\<lparr>selectUsers := Some [UserRow ''u@x'' [''A''], UserRow ''v@x'' [''A'']]\<rparr>) abcWorld =
        Done (r, w') \<and>
      forecastCalls w' = forecastCalls abcWorld @ [(''A'', True)]) \<and>
   (\<exists>r w'. sendWeatherEmails flaky abcWorld = Done (r, w') \<and>
      forecastCalls w' = forecastCalls abcWorld @ [(''A'', False), (''A'', True)])"
proof -
  have one: "\<exists>r w'. sendWeatherEmails
        (aOnly\<lparr>selectUsers := Some [UserRow ''u@x'' [''A''], UserRow ''v@x'' [''A'']]\<rparr>) abcWorld =
        Done (r, w') \<and>
      forecastCalls w' = forecastCalls abcWorld @ [(''A'', True)]"
    by (rule forecast_cache_keeps_successes_only
          [where env = "aOnly\<lparr>selectUsers := Some [UserRow ''u@x'' [''A''], UserRow ''v@x'' [''A'']]\<rparr>"
             and w = abcWorld and city = "''A''" and cd = "cityAt ''A''"
             and series = "replicate 24 point" and ?e1.0 = "''u@x''" and ?e2.0 = "''v@x''",
           THEN conjunct2, THEN conjunct2, THEN conjunct2, THEN conjunct2, THEN conjunct2,
           THEN conjunct1, THEN mp])
       (simp add: dispatch_scenario_defs)
  have "\<exists>r w'. sendWeatherEmails flaky abcWorld = Done (r, w') \<and>
      forecastCalls w' = forecastCalls abcWorld @ [(''A'', False), (''A'', (None :: error option) = None)]"
    by (rule forecast_cache_keeps_successes_only
          [where env = flaky and w = abcWorld and city = "''A''" and cd = "cityAt ''A''"
             and ?s1.0 = "[]" and err = RequestError and ?s2.0 = "replicate 24 point"
             and ?e1.0 = "''u@x''" and ?e2.0 = "''v@x''",
           THEN conjunct2, THEN conjunct2, THEN conjunct2, THEN conjunct2, THEN conjunct2,
           THEN conjunct2, THEN mp])
       (simp add: dispatch_scenario_defs)
  then have two: "\<exists>r w'. sendWeatherEmails flaky abcWorld = Done (r, w') \<and>
      forecastCalls w' = forecastCalls abcWorld @ [(''A'', False), (''A'', True)]"
    by simp
  from one two show ?thesis by (rule conjI)
qed

text \<open>
  C6. The claim: every section of the digest carries the name of a city as its header,
  followed by that city's entries. \<^verbatim>\<open>createEmailBody\<close> takes the header of the \<open>i\<close>-th
  forecast from \<^verbatim>\<open>cities[i]\<close>, but \<^verbatim>\<open>forecastParts\<close> holds no element for a city that was
  skipped, so after a skipped city the headers are off by one. A user subscribed to B and
  A, where B's fetch fails and A's succeeds, is sent A's entries under the header B.
\<close>

theorem digest_header_of_skipped_city:
  "sendWeatherEmails (aOnly\<lparr>selectUsers := Some [UserRow ''u@x'' [''B'', ''A'']]\<rparr>) abcWorld =
     Done (None,
       abcWorld\<lparr>forecastCalls := [(''B'', False), (''A'', True)], publishCalls := 1,
         queue := [''u@x|'' @ bodyHead @ citySection quietEnv ''B'' (replicate 24 point) @
                   bodyTail]\<rparr>)"
  by (simp add: sendWeatherEmails_def aOnly_def abcWorld_def abc_def dayReply_def
      getWeatherForecast_def sliceTo_def createEmailBody_def publishEmailTask_def dailyTask_def
      citySection_def entryLine_def scenario_defs)

end
